theory Spec2Isabelle
  imports Main
begin

section \<open>Domain errors and responses (types)\<close>

text \<open>
  The exceptions of the service are values. \<open>VoucherLimitExceeded\<close>, \<open>RateLimitExceeded\<close>
  and \<open>InvalidVoucherCode\<close> are the three subclasses of \<open>VoucherError\<close>; \<open>Error\<close> is a
  plain JavaScript \<open>Error\<close> with its message; \<open>DbError\<close> is an error raised by the store
  itself (a violated check constraint or an exception raised by a trigger).
  The message of the per-user rate-limit error embeds the number of seconds to wait, so it
  is kept as a number.
\<close>

datatype rate_limit_message = TryAgainIn int | TooManyRequestsFromIP

datatype error =
    VoucherLimitExceeded
  | RateLimitExceeded rate_limit_message
  | InvalidVoucherCode string
  | Error string
  | DbError string

text \<open>The \<open>code\<close> and \<open>statusCode\<close> fields the subclasses of \<open>VoucherError\<close> pass to
  their constructor; a plain \<open>Error\<close> and a store error carry none.\<close>

fun error_code :: "error \<Rightarrow> string option" where
  "error_code VoucherLimitExceeded = Some ''LIMIT_EXCEEDED''"
| "error_code (RateLimitExceeded m) = Some ''RATE_LIMIT_EXCEEDED''"
| "error_code (InvalidVoucherCode m) = Some ''INVALID_VOUCHER''"
| "error_code (Error m) = None"
| "error_code (DbError m) = None"

fun statusCode :: "error \<Rightarrow> int option" where
  "statusCode VoucherLimitExceeded = Some 403"
| "statusCode (RateLimitExceeded m) = Some 429"
| "statusCode (InvalidVoucherCode m) = Some 400"
| "statusCode (Error m) = None"
| "statusCode (DbError m) = None"

datatype response_status = S_pending | S_success | S_limit_reached

record ClaimVoucherResponse =
  success :: bool
  message :: string
  vouchersRemaining :: "int option"
  requestId :: "string option"
  status :: "response_status option"

record ClaimVoucherRequest =
  userId :: int
  voucherCode :: string
  ipAddress :: string
  userAgent :: string
  deviceId :: "string option"
  idempotencyKey :: string

text \<open>A queue job carries every field of the request, its own id and the enqueue time.\<close>

record QueueJob = ClaimVoucherRequest +
  job_id :: string
  timestamp :: int

section \<open>Circuit breaker (utils/circuitBreaker.ts)\<close>

datatype CircuitState = CLOSED | OPEN | HALF_OPEN

record CircuitBreakerOptions =
  failureThreshold :: int
  successThreshold :: int
  timeout :: int
  resetTimeout :: int

record CircuitBreaker =
  state :: CircuitState
  failureCount :: int
  successCount :: int
  nextAttempt :: int
  options :: CircuitBreakerOptions

text \<open>\<open>x || d\<close> on an optional number: \<open>undefined\<close> and \<open>0\<close> are falsy.\<close>

definition or_default :: "int option \<Rightarrow> int \<Rightarrow> int" where
  "or_default x d = (case x of None \<Rightarrow> d | Some v \<Rightarrow> if v = 0 then d else v)"

text \<open>The constructor; \<open>now\<close> is the value of \<open>Date.now()\<close> when the object is built.\<close>

definition new_CircuitBreaker ::
  "int option \<Rightarrow> int option \<Rightarrow> int option \<Rightarrow> int option \<Rightarrow> int \<Rightarrow> CircuitBreaker" where
  "new_CircuitBreaker ft st tm rt now =
     \<lparr> state = CLOSED, failureCount = 0, successCount = 0, nextAttempt = now,
       options = \<lparr> failureThreshold = or_default ft 5, successThreshold = or_default st 2,
                   timeout = or_default tm 60000, resetTimeout = or_default rt 30000 \<rparr> \<rparr>"

definition onSuccess :: "CircuitBreaker \<Rightarrow> CircuitBreaker" where
  "onSuccess cb =
     (let cb1 = cb\<lparr>failureCount := 0\<rparr> in
      if state cb1 = HALF_OPEN then
        (let cb2 = cb1\<lparr>successCount := successCount cb1 + 1\<rparr> in
         if successCount cb2 \<ge> successThreshold (options cb2)
         then cb2\<lparr>state := CLOSED, successCount := 0\<rparr>
         else cb2)
      else cb1)"

definition onFailure :: "CircuitBreaker \<Rightarrow> int \<Rightarrow> CircuitBreaker" where
  "onFailure cb now =
     (let cb1 = cb\<lparr>failureCount := failureCount cb + 1\<rparr> in
      if failureCount cb1 \<ge> failureThreshold (options cb1)
      then cb1\<lparr>state := OPEN, nextAttempt := now + resetTimeout (options cb1)\<rparr>
      else cb1)"

text \<open>
  \<open>execute\<close> runs the wrapped action \<open>fn\<close> on the state \<open>s\<close> the action works on, unless the
  breaker is open and \<open>nextAttempt\<close> has not come. \<open>now\<close> is the reading of the clock during
  the call; \<open>timedOut\<close> says that the timeout promise won the race against the action (the
  action still runs to its end, so its effects on \<open>s\<close> stay, but its result is dropped).
\<close>

definition execute ::
  "CircuitBreaker \<Rightarrow> int \<Rightarrow> bool \<Rightarrow> ('s \<Rightarrow> (error + 'a) \<times> 's) \<Rightarrow> 's
     \<Rightarrow> ((error + 'a) \<times> 's) \<times> CircuitBreaker" where
  "execute cb now timedOut fn s =
     (if state cb = OPEN \<and> now < nextAttempt cb
      then ((Inl (Error ''Circuit breaker is OPEN''), s), cb)
      else
        (let cb1 = (if state cb = OPEN then cb\<lparr>state := HALF_OPEN\<rparr> else cb);
             out = fn s
         in if timedOut
            then ((Inl (Error ''Circuit breaker timeout''), snd out), onFailure cb1 now)
            else (case fst out of
                    Inr r \<Rightarrow> ((Inr r, snd out), onSuccess cb1)
                  | Inl e \<Rightarrow> ((Inl e, snd out), onFailure cb1 now))))"

text \<open>The breaker of \<open>VoucherService\<close>, as its constructor builds it.\<close>

definition dbCircuitBreaker_init :: "int \<Rightarrow> CircuitBreaker" where
  "dbCircuitBreaker_init now = new_CircuitBreaker (Some 5) (Some 2) (Some 5000) (Some 30000) now"

text \<open>A driver for traces: each entry is the clock reading of a call to \<open>execute\<close> and
  whether the wrapped action succeeds (the action has no state of its own here).\<close>

fun execute_trace :: "CircuitBreaker \<Rightarrow> (int \<times> bool) list \<Rightarrow> CircuitBreaker" where
  "execute_trace cb [] = cb"
| "execute_trace cb ((now, ok) # rest) =
     execute_trace
       (snd (execute cb now False
               (\<lambda>s. (if ok then Inr () else Inl (Error ''action failed''), s)) ()))
       rest"

section \<open>The persistent store (schema, check constraints and triggers)\<close>

text \<open>
  Rows carry the columns the claim and refund paths read or write. \<open>INTEGER\<close> columns are
  \<open>int\<close>, nullable columns are options, timestamps are milliseconds since the epoch.
  A nullable boolean (\<open>is_active\<close>) is \<open>False\<close> when \<open>NULL\<close>: both \<open>is_active = TRUE\<close> in
  SQL and \<open>!row.is_active\<close> in the service treat \<open>NULL\<close> as not active.
  The economic attributes of a code (discount kind and value) and the \<open>metadata\<close> JSON of
  a claim are copied around but never inspected, and are left out.
  The service's \<open>User\<close> and \<open>VoucherCode\<close> objects are built from a row column by column, so
  the rows stand for them as well.
\<close>

record user_row =
  u_id :: int
  email :: string
  vouchers_claimed :: int
  voucher_limit :: int
  is_premium :: bool
  u_is_active :: bool

record voucher_code_row =
  vc_id :: int
  code :: string
  vc_is_active :: bool
  is_used :: bool
  used_by :: "int option"
  used_at :: "int option"
  usage_limit :: int
  usage_count :: int
  valid_from :: "int option"
  expires_at :: "int option"
  allowed_user_ids :: "int list option"

datatype voucher_status = PENDING | SUCCESS | FAILED | REFUNDED

record voucher_claim_row =
  c_id :: int
  c_user_id :: int
  c_voucher_code :: string
  c_voucher_code_id :: "int option"
  c_status :: voucher_status
  claimed_at :: int
  ip_address :: string
  user_agent :: string
  device_id :: "string option"
  request_id :: string
  refunded_at :: "int option"
  refunded_by :: "int option"
  refund_reason :: "string option"

datatype audit_action =
    CLAIM_SUCCESS | CLAIM_DENIED | LIMIT_REACHED | REFUND
  | CODE_CREATED | CODE_DEACTIVATED | SUSPICIOUS_ACTIVITY

text \<open>An audit row; \<open>a_refund_metadata\<close> is the \<open>{reason, adminId}\<close> object a refund stores.\<close>

record audit_row =
  a_user_id :: "int option"
  a_action :: audit_action
  a_voucher_code :: "string option"
  a_voucher_code_id :: "int option"
  a_claim_id :: "int option"
  a_ip_address :: "string option"
  a_user_agent :: "string option"
  a_device_id :: "string option"
  a_refund_metadata :: "(string \<times> int option) option"

text \<open>The tables, in insertion order, and the sequence behind \<open>voucher_claims.id\<close>.\<close>

record database =
  users :: "user_row list"
  voucher_codes :: "voucher_code_row list"
  voucher_claims :: "voucher_claim_row list"
  voucher_audit_log :: "audit_row list"
  voucher_claims_id_seq :: int

text \<open>The check constraints on the counters of \<open>users\<close> and \<open>voucher_codes\<close>
  (\<open>check_vouchers_non_negative\<close>, \<open>check_limit_positive\<close>,
  \<open>check_vouchers_not_exceed_limit\<close>; \<open>check_usage_count_not_negative\<close>,
  \<open>check_usage_limit_positive\<close>, \<open>check_usage_count_not_exceed_limit\<close>). The trigger
  \<open>enforce_voucher_limit\<close> raises on the same condition as the third.\<close>

definition users_check :: "user_row \<Rightarrow> bool" where
  "users_check u \<longleftrightarrow>
     vouchers_claimed u \<ge> 0 \<and> voucher_limit u > 0 \<and> vouchers_claimed u \<le> voucher_limit u"

definition voucher_codes_check :: "voucher_code_row \<Rightarrow> bool" where
  "voucher_codes_check v \<longleftrightarrow>
     usage_count v \<ge> 0 \<and> usage_limit v > 0 \<and> usage_count v \<le> usage_limit v"

text \<open>\<open>UPDATE users SET ... WHERE wh\<close>: every matching row is rewritten; the statement
  fails, changing nothing, when a rewritten row violates a check constraint.\<close>

definition update_users ::
  "(user_row \<Rightarrow> bool) \<Rightarrow> (user_row \<Rightarrow> user_row) \<Rightarrow> database \<Rightarrow> error + database" where
  "update_users wh upd db =
     (if list_all users_check (map upd (filter wh (users db)))
      then Inr (db\<lparr>users := map (\<lambda>u. if wh u then upd u else u) (users db)\<rparr>)
      else Inl (DbError ''check_violation''))"

definition update_voucher_codes ::
  "(voucher_code_row \<Rightarrow> bool) \<Rightarrow> (voucher_code_row \<Rightarrow> voucher_code_row) \<Rightarrow> database
     \<Rightarrow> error + database" where
  "update_voucher_codes wh upd db =
     (if list_all voucher_codes_check (map upd (filter wh (voucher_codes db)))
      then Inr (db\<lparr>voucher_codes := map (\<lambda>v. if wh v then upd v else v) (voucher_codes db)\<rparr>)
      else Inl (DbError ''check_violation''))"

text \<open>Trigger function \<open>increment_voucher_code_usage\<close> (AFTER INSERT on \<open>voucher_claims\<close>).\<close>

definition increment_voucher_code_usage :: "voucher_claim_row \<Rightarrow> database \<Rightarrow> error + database" where
  "increment_voucher_code_usage new db =
     (case c_voucher_code_id new of
        None \<Rightarrow> Inr db
      | Some cid \<Rightarrow>
          if c_status new = SUCCESS
          then update_voucher_codes (\<lambda>v. vc_id v = cid)
                 (\<lambda>v. v\<lparr>usage_count := usage_count v + 1,
                        is_used := (if usage_count v + 1 \<ge> usage_limit v then True else is_used v)\<rparr>)
                 db
          else Inr db)"

text \<open>Trigger function \<open>log_claim_to_audit\<close> (AFTER INSERT on \<open>voucher_claims\<close>).\<close>

definition log_claim_to_audit :: "voucher_claim_row \<Rightarrow> database \<Rightarrow> database" where
  "log_claim_to_audit new db =
     db\<lparr>voucher_audit_log := voucher_audit_log db @
         [\<lparr> a_user_id = Some (c_user_id new),
            a_action = (case c_status new of SUCCESS \<Rightarrow> CLAIM_SUCCESS
                        | FAILED \<Rightarrow> CLAIM_DENIED | _ \<Rightarrow> CLAIM_DENIED),
            a_voucher_code = Some (c_voucher_code new),
            a_voucher_code_id = c_voucher_code_id new,
            a_claim_id = Some (c_id new),
            a_ip_address = Some (ip_address new),
            a_user_agent = Some (user_agent new),
            a_device_id = device_id new,
            a_refund_metadata = None \<rparr>]\<rparr>"

text \<open>
  \<open>INSERT INTO voucher_claims ... RETURNING id\<close>: the row gets the next value of the
  sequence, then the two AFTER INSERT triggers fire in the order of their names
  (\<open>increment_voucher_usage\<close>, \<open>log_voucher_claim\<close>). An error in a trigger fails the
  statement. The values of the row are taken to be well-formed for the types of their
  columns (\<open>request_id\<close> is a \<open>UUID\<close>, \<open>ip_address\<close> an \<open>INET\<close>): the store's parsing of
  these texts is not modelled.
\<close>

definition insert_voucher_claim ::
  "voucher_claim_row \<Rightarrow> database \<Rightarrow> error + (int \<times> database)" where
  "insert_voucher_claim row db =
     (let new = row\<lparr>c_id := voucher_claims_id_seq db\<rparr>;
          db1 = db\<lparr>voucher_claims := voucher_claims db @ [new],
                   voucher_claims_id_seq := voucher_claims_id_seq db + 1\<rparr>
      in case increment_voucher_code_usage new db1 of
           Inl e \<Rightarrow> Inl e
         | Inr db2 \<Rightarrow> Inr (c_id new, log_claim_to_audit new db2))"

text \<open>
  \<open>db.transaction\<close>: BEGIN, the callback, COMMIT; when the callback throws, ROLLBACK and
  the error is rethrown. The callback also talks to the key/value store (\<open>'k\<close>), and what
  it did there is not undone by the rollback.
\<close>

definition transaction ::
  "(database \<times> 'k \<Rightarrow> (error + 'a) \<times> database \<times> 'k) \<Rightarrow> database \<times> 'k
     \<Rightarrow> (error + 'a) \<times> database \<times> 'k" where
  "transaction callback s =
     (case callback s of
        (Inl e, s') \<Rightarrow> (Inl e, (fst s, snd s'))
      | (Inr r, s') \<Rightarrow> (Inr r, s'))"

text \<open>The queries of the claim and refund transactions.\<close>

definition select_active_user :: "database \<Rightarrow> int \<Rightarrow> user_row list" where
  "select_active_user db uid = filter (\<lambda>u. u_id u = uid \<and> u_is_active u) (users db)"

definition select_voucher_code :: "database \<Rightarrow> string \<Rightarrow> voucher_code_row list" where
  "select_voucher_code db c = filter (\<lambda>v. code v = c) (voucher_codes db)"

definition select_success_claims :: "database \<Rightarrow> int \<Rightarrow> string \<Rightarrow> voucher_claim_row list" where
  "select_success_claims db uid c =
     filter (\<lambda>r. c_user_id r = uid \<and> c_voucher_code r = c \<and> c_status r = SUCCESS)
       (voucher_claims db)"

definition select_claim :: "database \<Rightarrow> int \<Rightarrow> voucher_claim_row list" where
  "select_claim db cid = filter (\<lambda>r. c_id r = cid) (voucher_claims db)"

text \<open>\<open>row.expires_at && new Date(row.expires_at) < new Date()\<close>.\<close>

definition expired :: "voucher_code_row \<Rightarrow> int \<Rightarrow> bool" where
  "expired v now = (case expires_at v of None \<Rightarrow> False | Some t \<Rightarrow> t < now)"

section \<open>The key/value store and the cache (services/CacheService.ts)\<close>

text \<open>
  Each family of keys is a map from the variable part of the key to the stored value and
  the time at which the key expires (\<open>SETEX key ttl value\<close> at time \<open>now\<close> expires at
  \<open>now + ttl * 1000\<close>). A key is there as long as the clock is before its expiry.
  Values are stored as JSON; \<open>JSON.parse (JSON.stringify r)\<close> gives back a response with
  the same fields, so the maps hold the values themselves.
\<close>

record redis_store =
  claim_result_keys :: "string \<Rightarrow> (ClaimVoucherResponse \<times> int) option"
  user_vouchers_keys :: "int \<Rightarrow> (int \<times> int) option"
  user_data_keys :: "int \<Rightarrow> (user_row \<times> int) option"
  rate_limit_user_keys :: "int \<Rightarrow> (int list \<times> int) option"
  rate_limit_ip_keys :: "string \<Rightarrow> (int \<times> int option) option"

definition live :: "int \<Rightarrow> ('a \<times> int) option \<Rightarrow> 'a option" where
  "live now e = (case e of None \<Rightarrow> None | Some (v, expiry) \<Rightarrow> if now < expiry then Some v else None)"

text \<open>The state of the whole service: the store, the key/value store, the hit and miss
  counters of \<open>CacheService\<close>, the breaker of \<open>VoucherService\<close> and the claim queue.\<close>

record system =
  db_state :: database
  redis_state :: redis_store
  cacheHits :: nat
  cacheMisses :: nat
  dbCircuitBreaker :: CircuitBreaker
  voucherQueue :: "QueueJob list"

definition getClaimResult :: "system \<Rightarrow> string \<Rightarrow> int \<Rightarrow> ClaimVoucherResponse option \<times> system" where
  "getClaimResult st key now =
     (case live now (claim_result_keys (redis_state st) key) of
        Some r \<Rightarrow> (Some r, st\<lparr>cacheHits := cacheHits st + 1\<rparr>)
      | None \<Rightarrow> (None, st\<lparr>cacheMisses := cacheMisses st + 1\<rparr>))"

definition cacheClaimResult ::
  "redis_store \<Rightarrow> string \<Rightarrow> ClaimVoucherResponse \<Rightarrow> int \<Rightarrow> redis_store" where
  "cacheClaimResult kv key result now =
     kv\<lparr>claim_result_keys := (claim_result_keys kv)(key \<mapsto> (result, now + 3600 * 1000))\<rparr>"

definition getUserVoucherCount :: "system \<Rightarrow> int \<Rightarrow> int \<Rightarrow> int option \<times> system" where
  "getUserVoucherCount st uid now =
     (case live now (user_vouchers_keys (redis_state st) uid) of
        Some n \<Rightarrow> (Some n, st\<lparr>cacheHits := cacheHits st + 1\<rparr>)
      | None \<Rightarrow> (None, st\<lparr>cacheMisses := cacheMisses st + 1\<rparr>))"

definition setUserVoucherCount :: "redis_store \<Rightarrow> int \<Rightarrow> int \<Rightarrow> int \<Rightarrow> redis_store" where
  "setUserVoucherCount kv uid n now =
     kv\<lparr>user_vouchers_keys := (user_vouchers_keys kv)(uid \<mapsto> (n, now + 300 * 1000))\<rparr>"

definition cache_getUser :: "system \<Rightarrow> int \<Rightarrow> int \<Rightarrow> user_row option \<times> system" where
  "cache_getUser st uid now =
     (case live now (user_data_keys (redis_state st) uid) of
        Some u \<Rightarrow> (Some u, st\<lparr>cacheHits := cacheHits st + 1\<rparr>)
      | None \<Rightarrow> (None, st\<lparr>cacheMisses := cacheMisses st + 1\<rparr>))"

definition setUser :: "redis_store \<Rightarrow> user_row \<Rightarrow> int \<Rightarrow> redis_store" where
  "setUser kv u now =
     kv\<lparr>user_data_keys := (user_data_keys kv)(u_id u \<mapsto> (u, now + 300 * 1000))\<rparr>"

text \<open>\<open>invalidateUserCache\<close> deletes every key matching \<open>user:{id}:*\<close>: the user's data and
  the user's voucher count.\<close>

definition invalidateUserCache :: "redis_store \<Rightarrow> int \<Rightarrow> redis_store" where
  "invalidateUserCache kv uid =
     kv\<lparr>user_vouchers_keys := (user_vouchers_keys kv)(uid := None),
        user_data_keys := (user_data_keys kv)(uid := None)\<rparr>"

section \<open>The claim transaction on the fast path (VoucherService.processClaimImmediate)\<close>

text \<open>The two UPDATE statements and the row of the INSERT.\<close>

definition increment_vouchers_claimed :: "int \<Rightarrow> database \<Rightarrow> error + database" where
  "increment_vouchers_claimed uid db =
     update_users (\<lambda>u. u_id u = uid) (\<lambda>u. u\<lparr>vouchers_claimed := vouchers_claimed u + 1\<rparr>) db"

definition use_voucher_code_immediate :: "int \<Rightarrow> int \<Rightarrow> int \<Rightarrow> database \<Rightarrow> error + database" where
  "use_voucher_code_immediate uid vid now db =
     update_voucher_codes (\<lambda>v. vc_id v = vid)
       (\<lambda>v. v\<lparr>usage_count := usage_count v + 1,
              is_used := (if usage_count v + 1 \<ge> usage_limit v then True else is_used v),
              used_by := (if usage_limit v = 1 then Some uid else used_by v),
              used_at := (if usage_limit v = 1 then Some now else used_at v)\<rparr>)
       db"

definition success_claim_row ::
  "'a ClaimVoucherRequest_scheme \<Rightarrow> int \<Rightarrow> int \<Rightarrow> voucher_claim_row" where
  "success_claim_row request vid now =
     \<lparr> c_id = 0, c_user_id = userId request, c_voucher_code = voucherCode request,
       c_voucher_code_id = Some vid, c_status = SUCCESS, claimed_at = now,
       ip_address = ipAddress request, user_agent = userAgent request,
       device_id = deviceId request, request_id = idempotencyKey request,
       refunded_at = None, refunded_by = None, refund_reason = None \<rparr>"

definition claimed_response :: "user_row \<Rightarrow> ClaimVoucherResponse" where
  "claimed_response user =
     \<lparr> success = True, message = ''Voucher claimed successfully'',
       vouchersRemaining = Some (voucher_limit user - (vouchers_claimed user + 1)),
       requestId = None, status = Some S_success \<rparr>"

text \<open>The callback handed to \<open>db.transaction\<close>. Every \<open>throw\<close> is an \<open>Inl\<close>; the state
  returned with it is the one reached when the error was raised.\<close>

definition processClaimImmediate_callback ::
  "ClaimVoucherRequest \<Rightarrow> int \<Rightarrow> database \<times> redis_store
     \<Rightarrow> (error + ClaimVoucherResponse) \<times> database \<times> redis_store" where
  "processClaimImmediate_callback request now s =
     (case select_active_user (fst s) (userId request) of
        [] \<Rightarrow> (Inl (Error ''User not found or inactive''), s)
      | user # _ \<Rightarrow>
        if vouchers_claimed user \<ge> voucher_limit user then (Inl VoucherLimitExceeded, s)
        else
        (case select_voucher_code (fst s) (voucherCode request) of
           [] \<Rightarrow> (Inl (InvalidVoucherCode ''Voucher code not found''), s)
         | voucher # _ \<Rightarrow>
           if \<not> vc_is_active voucher
           then (Inl (InvalidVoucherCode ''Voucher code is inactive''), s)
           else if expired voucher now
           then (Inl (InvalidVoucherCode ''Voucher code has expired''), s)
           else if usage_count voucher \<ge> usage_limit voucher
           then (Inl (InvalidVoucherCode ''Voucher code usage limit reached''), s)
           else if select_success_claims (fst s) (userId request) (voucherCode request) \<noteq> []
           then (Inl (InvalidVoucherCode ''You have already claimed this voucher''), s)
           else
           (case increment_vouchers_claimed (userId request) (fst s) of
              Inl e \<Rightarrow> (Inl e, s)
            | Inr db1 \<Rightarrow>
              (case use_voucher_code_immediate (userId request) (vc_id voucher) now db1 of
                 Inl e \<Rightarrow> (Inl e, (db1, snd s))
               | Inr db2 \<Rightarrow>
                 (case insert_voucher_claim (success_claim_row request (vc_id voucher) now) db2 of
                    Inl e \<Rightarrow> (Inl e, (db2, snd s))
                  | Inr (claimId, db3) \<Rightarrow>
                    (Inr (claimed_response user),
                     (db3,
                      setUserVoucherCount (invalidateUserCache (snd s) (userId request))
                        (userId request) (vouchers_claimed user + 1) now)))))))"

text \<open>The claim transaction of the fast path, and \<open>processClaimImmediate\<close>, which runs it
  through the breaker.\<close>

definition claim_transaction_immediate ::
  "ClaimVoucherRequest \<Rightarrow> int \<Rightarrow> database \<times> redis_store
     \<Rightarrow> (error + ClaimVoucherResponse) \<times> database \<times> redis_store" where
  "claim_transaction_immediate request now = transaction (processClaimImmediate_callback request now)"

definition processClaimImmediate ::
  "system \<Rightarrow> ClaimVoucherRequest \<Rightarrow> int \<Rightarrow> bool \<Rightarrow> (error + ClaimVoucherResponse) \<times> system" where
  "processClaimImmediate st request now timedOut =
     (let out = execute (dbCircuitBreaker st) now timedOut
                  (claim_transaction_immediate request now) (db_state st, redis_state st)
      in (fst (fst out),
          st\<lparr>db_state := fst (snd (fst out)), redis_state := snd (snd (fst out)),
             dbCircuitBreaker := snd out\<rparr>))"

section \<open>The claim transaction on the queued path (workers/voucherWorker.ts)\<close>

definition use_voucher_code_worker :: "int \<Rightarrow> database \<Rightarrow> error + database" where
  "use_voucher_code_worker vid db =
     update_voucher_codes (\<lambda>v. vc_id v = vid)
       (\<lambda>v. v\<lparr>usage_count := usage_count v + 1,
              is_used := (if usage_count v + 1 \<ge> usage_limit v then True else is_used v)\<rparr>)
       db"

definition limit_reached_response :: ClaimVoucherResponse where
  "limit_reached_response =
     \<lparr> success = False, message = ''Voucher limit exceeded'', vouchersRemaining = None,
       requestId = None, status = Some S_limit_reached \<rparr>"

definition processJob_callback ::
  "QueueJob \<Rightarrow> int \<Rightarrow> database \<times> redis_store
     \<Rightarrow> (error + ClaimVoucherResponse) \<times> database \<times> redis_store" where
  "processJob_callback job now s =
     (case select_active_user (fst s) (userId job) of
        [] \<Rightarrow> (Inl (Error ''User not found or inactive''), s)
      | user # _ \<Rightarrow>
        if vouchers_claimed user \<ge> voucher_limit user then (Inr limit_reached_response, s)
        else
        (case select_voucher_code (fst s) (voucherCode job) of
           [] \<Rightarrow> (Inl (Error ''Voucher code not found''), s)
         | voucher # _ \<Rightarrow>
           if \<not> vc_is_active voucher \<or> expired voucher now
              \<or> usage_count voucher \<ge> usage_limit voucher
           then (Inl (Error ''Voucher code is not valid''), s)
           else
           (case increment_vouchers_claimed (userId job) (fst s) of
              Inl e \<Rightarrow> (Inl e, s)
            | Inr db1 \<Rightarrow>
              (case use_voucher_code_worker (vc_id voucher) db1 of
                 Inl e \<Rightarrow> (Inl e, (db1, snd s))
               | Inr db2 \<Rightarrow>
                 (case insert_voucher_claim (success_claim_row job (vc_id voucher) now) db2 of
                    Inl e \<Rightarrow> (Inl e, (db2, snd s))
                  | Inr (claimId, db3) \<Rightarrow>
                    (Inr (claimed_response user),
                     (db3,
                      setUserVoucherCount (invalidateUserCache (snd s) (userId job))
                        (userId job) (vouchers_claimed user + 1) now)))))))"

text \<open>\<open>processJob\<close>: the transaction, then the result is cached under the idempotency key.
  An error leaves the \<open>try\<close> block before the result is cached and is rethrown, which
  fails the job.\<close>

definition processJob :: "system \<Rightarrow> QueueJob \<Rightarrow> int \<Rightarrow> (error + ClaimVoucherResponse) \<times> system" where
  "processJob st job now =
     (case transaction (processJob_callback job now) (db_state st, redis_state st) of
        (Inl e, s') \<Rightarrow> (Inl e, st\<lparr>db_state := fst s', redis_state := snd s'\<rparr>)
      | (Inr result, s') \<Rightarrow>
          (Inr result,
           st\<lparr>db_state := fst s', redis_state := cacheClaimResult (snd s') (idempotencyKey job) result now\<rparr>))"

section \<open>Refund (VoucherService.refundVoucher)\<close>

text \<open>\<open>if (claim.voucher_code_id)\<close>: \<open>NULL\<close> and \<open>0\<close> are falsy.\<close>

definition refundVoucher_callback ::
  "int \<Rightarrow> string \<Rightarrow> int option \<Rightarrow> int \<Rightarrow> database \<times> redis_store
     \<Rightarrow> (error + unit) \<times> database \<times> redis_store" where
  "refundVoucher_callback claimId reason adminId now s =
     (case select_claim (fst s) claimId of
        [] \<Rightarrow> (Inl (Error ''Claim not found''), s)
      | claim # _ \<Rightarrow>
        if c_status claim = REFUNDED then (Inl (Error ''Claim already refunded''), s)
        else
        (let db1 = (fst s)\<lparr>voucher_claims :=
                      map (\<lambda>r. if c_id r = claimId
                                then r\<lparr>c_status := REFUNDED, refunded_at := Some now,
                                       refunded_by := adminId, refund_reason := Some reason\<rparr>
                                else r)
                        (voucher_claims (fst s))\<rparr>
         in case update_users (\<lambda>u. u_id u = c_user_id claim)
                   (\<lambda>u. u\<lparr>vouchers_claimed := max 0 (vouchers_claimed u - 1)\<rparr>) db1 of
              Inl e \<Rightarrow> (Inl e, (db1, snd s))
            | Inr db2 \<Rightarrow>
              (case (case c_voucher_code_id claim of
                       None \<Rightarrow> Inr db2
                     | Some vid \<Rightarrow>
                         if vid = 0 then Inr db2
                         else update_voucher_codes (\<lambda>v. vc_id v = vid)
                                (\<lambda>v. v\<lparr>usage_count := max 0 (usage_count v - 1),
                                       is_used := False\<rparr>) db2) of
                 Inl e \<Rightarrow> (Inl e, (db2, snd s))
               | Inr db3 \<Rightarrow>
                 (Inr (),
                  (db3\<lparr>voucher_audit_log := voucher_audit_log db3 @
                         [\<lparr> a_user_id = Some (c_user_id claim), a_action = REFUND,
                            a_voucher_code = Some (c_voucher_code claim),
                            a_voucher_code_id = c_voucher_code_id claim,
                            a_claim_id = Some claimId,
                            a_ip_address = None, a_user_agent = None, a_device_id = None,
                            a_refund_metadata = Some (reason, adminId) \<rparr>]\<rparr>,
                   invalidateUserCache (snd s) (c_user_id claim))))))"

definition refundVoucher ::
  "system \<Rightarrow> int \<Rightarrow> string \<Rightarrow> int option \<Rightarrow> int \<Rightarrow> (error + unit) \<times> system" where
  "refundVoucher st claimId reason adminId now =
     (let out = transaction (refundVoucher_callback claimId reason adminId now) (db_state st, redis_state st)
      in (fst out, st\<lparr>db_state := fst (snd out), redis_state := snd (snd out)\<rparr>))"

section \<open>Rate limiting (services/RateLimitService.ts)\<close>

record RateLimitResult =
  allowed :: bool
  remainingRequests :: int
  resetTime :: int

text \<open>
  The sorted set \<open>rate_limit:user:{id}\<close> holds one member per recorded attempt; the member
  is the decimal text of its score, the millisecond timestamp, so the set is the list of
  its scores without repetition. \<open>ZADD\<close> of a score already there adds nothing,
  \<open>ZCARD\<close> is the length, and \<open>ZRANGE key 0 0 WITHSCORES\<close> gives the lowest score.
\<close>

definition zremrangebyscore :: "int list \<Rightarrow> int \<Rightarrow> int \<Rightarrow> int list" where
  "zremrangebyscore members lo hi = filter (\<lambda>score. \<not> (lo \<le> score \<and> score \<le> hi)) members"

definition zadd :: "int list \<Rightarrow> int \<Rightarrow> int list" where
  "zadd members score = List.insert score members"

definition zrange_lowest :: "int list \<Rightarrow> int option" where
  "zrange_lowest members = (case members of [] \<Rightarrow> None | x # xs \<Rightarrow> Some (fold min xs x))"

text \<open>The members of a user's key that the pipeline of \<open>checkRateLimit\<close> counts at time
  \<open>now\<close>: those left after the eviction of the scores from 0 to \<open>now - windowSeconds * 1000\<close>.\<close>

definition attempts_in_window :: "system \<Rightarrow> int \<Rightarrow> int \<Rightarrow> int \<Rightarrow> int list" where
  "attempts_in_window st uid windowSeconds now =
     zremrangebyscore
       (case live now (rate_limit_user_keys (redis_state st) uid) of None \<Rightarrow> [] | Some ms \<Rightarrow> ms)
       0 (now - windowSeconds * 1000)"

definition checkRateLimit ::
  "system \<Rightarrow> int \<Rightarrow> int \<Rightarrow> int \<Rightarrow> int \<Rightarrow> RateLimitResult \<times> system" where
  "checkRateLimit st uid maxRequests windowSeconds now =
     (let kept = attempts_in_window st uid windowSeconds now;
          requestCount = int (length kept);
          added = zadd kept now;
          st' = st\<lparr>redis_state := (redis_state st)\<lparr>rate_limit_user_keys :=
                   (rate_limit_user_keys (redis_state st))
                     (uid \<mapsto> (added, now + windowSeconds * 1000))\<rparr>\<rparr>
      in if requestCount \<ge> maxRequests
         then (\<lparr> allowed = False, remainingRequests = 0,
                 resetTime = (case zrange_lowest added of
                                Some oldest \<Rightarrow> oldest + windowSeconds * 1000
                              | None \<Rightarrow> now + windowSeconds * 1000) \<rparr>, st')
         else (\<lparr> allowed = True, remainingRequests = maxRequests - requestCount - 1,
                 resetTime = now + windowSeconds * 1000 \<rparr>, st'))"

text \<open>The per-IP counter: \<open>INCR\<close>, and \<open>EXPIRE\<close> when the reply is 1. A counter key has an
  expiry only once \<open>EXPIRE\<close> has set one.\<close>

definition checkIPRateLimit :: "system \<Rightarrow> string \<Rightarrow> int \<Rightarrow> int \<Rightarrow> int \<Rightarrow> bool \<times> system" where
  "checkIPRateLimit st ip maxRequests windowSeconds now =
     (let old = (case rate_limit_ip_keys (redis_state st) ip of
                   None \<Rightarrow> None
                 | Some (n, None) \<Rightarrow> Some (n, None)
                 | Some (n, Some t) \<Rightarrow> if now < t then Some (n, Some t) else None);
          count = (case old of None \<Rightarrow> 1 | Some (n, e) \<Rightarrow> n + 1);
          expiry = (if count = 1 then Some (now + windowSeconds * 1000)
                    else (case old of None \<Rightarrow> None | Some (n, e) \<Rightarrow> e));
          st' = st\<lparr>redis_state := (redis_state st)\<lparr>rate_limit_ip_keys :=
                   (rate_limit_ip_keys (redis_state st))(ip \<mapsto> (count, expiry))\<rparr>\<rparr>
      in (\<not> count > maxRequests, st'))"

section \<open>The claim queue (config/queue.ts)\<close>

text \<open>
  Modelled from the spec: the queue library that stores the jobs is not part of the
  sources. \<open>addClaimJob\<close> adds the job under \<open>jobId = data.idempotencyKey\<close> and returns that
  id; the spec says that the queue rejects a duplicate job id silently.
\<close>

definition addClaimJob :: "system \<Rightarrow> QueueJob \<Rightarrow> string \<times> system" where
  "addClaimJob st data =
     (idempotencyKey data,
      if idempotencyKey data \<in> set (map idempotencyKey (voucherQueue st)) then st
      else st\<lparr>voucherQueue := voucherQueue st @ [data]\<rparr>)"

section \<open>The front path (VoucherService.claimVoucher)\<close>

text \<open>\<open>getUser\<close>: the cached user if there is one, else the active user of the store, who
  is then cached.\<close>

definition getUser :: "system \<Rightarrow> int \<Rightarrow> int \<Rightarrow> (error + user_row) \<times> system" where
  "getUser st uid now =
     (case cache_getUser st uid now of
        (Some cachedUser, st1) \<Rightarrow> (Inr cachedUser, st1)
      | (None, st1) \<Rightarrow>
          (case select_active_user (db_state st1) uid of
             [] \<Rightarrow> (Inl (Error ''User not found or inactive''), st1)
           | user # _ \<Rightarrow> (Inr user, st1\<lparr>redis_state := setUser (redis_state st1) user now\<rparr>)))"

definition getVoucherCode :: "database \<Rightarrow> string \<Rightarrow> voucher_code_row option" where
  "getVoucherCode d c = (case select_voucher_code d c of [] \<Rightarrow> None | row # _ \<Rightarrow> Some row)"

text \<open>The format: 6 to 50 characters, each of \<open>A-Z\<close>, \<open>0-9\<close> or \<open>-\<close>.\<close>

definition isValidVoucherCodeFormat :: "string \<Rightarrow> bool" where
  "isValidVoucherCodeFormat c \<longleftrightarrow>
     c \<noteq> [] \<and> \<not> (length c < 6 \<or> length c > 50) \<and>
     list_all (\<lambda>ch. ch \<in> set ''ABCDEFGHIJKLMNOPQRSTUVWXYZ0123456789-'') c"

definition isVoucherCodeValid :: "voucher_code_row \<Rightarrow> int \<Rightarrow> int \<Rightarrow> bool" where
  "isVoucherCodeValid voucher uid now =
     (if \<not> vc_is_active voucher then False
      else if usage_count voucher \<ge> usage_limit voucher then False
      else if (case valid_from voucher of None \<Rightarrow> False | Some t \<Rightarrow> t > now) then False
      else if expired voucher now then False
      else if (case allowed_user_ids voucher of
                 None \<Rightarrow> False
               | Some ids \<Rightarrow> length ids > 0 \<and> uid \<notin> set ids) then False
      else True)"

text \<open>\<open>Math.ceil (x / 1000)\<close> on whole milliseconds.\<close>

definition ceil_seconds :: "int \<Rightarrow> int" where
  "ceil_seconds ms = - ((- ms) div 1000)"

definition queued_response :: "string \<Rightarrow> ClaimVoucherResponse" where
  "queued_response jobId =
     \<lparr> success = True, message = ''Claim request queued for processing'',
       vouchersRemaining = None, requestId = Some jobId, status = Some S_pending \<rparr>"

definition claim_job :: "ClaimVoucherRequest \<Rightarrow> int \<Rightarrow> QueueJob" where
  "claim_job request now =
     \<lparr> userId = userId request, voucherCode = voucherCode request,
       ipAddress = ipAddress request, userAgent = userAgent request,
       deviceId = deviceId request, idempotencyKey = idempotencyKey request,
       job_id = idempotencyKey request, timestamp = now \<rparr>"

text \<open>
  \<open>claimVoucher\<close>. \<open>now\<close> is the reading of the clock during the call and \<open>timedOut\<close> is
  passed on to the breaker. The counters of the metrics registry and the log lines are
  not part of the state.
\<close>

definition claimVoucher ::
  "system \<Rightarrow> ClaimVoucherRequest \<Rightarrow> int \<Rightarrow> bool \<Rightarrow> (error + ClaimVoucherResponse) \<times> system" where
  "claimVoucher st request now timedOut =
     (case getClaimResult st (idempotencyKey request) now of
        (Some existingResult, st1) \<Rightarrow> (Inr existingResult, st1)
      | (None, st1) \<Rightarrow>
        (case checkRateLimit st1 (userId request) 10 60 now of
           (rateLimit, st2) \<Rightarrow>
           if \<not> allowed rateLimit
           then (Inl (RateLimitExceeded (TryAgainIn (ceil_seconds (resetTime rateLimit - now)))), st2)
           else
           (case checkIPRateLimit st2 (ipAddress request) 100 60 now of
              (ipAllowed, st3) \<Rightarrow>
              if \<not> ipAllowed then (Inl (RateLimitExceeded TooManyRequestsFromIP), st3)
              else
              (case getUserVoucherCount st3 (userId request) now of
                 (cachedCount, st4) \<Rightarrow>
                 (case (case cachedCount of
                          None \<Rightarrow> (Inr (), st4)
                        | Some n \<Rightarrow>
                            (case getUser st4 (userId request) now of
                               (Inl e, st5) \<Rightarrow> (Inl e, st5)
                             | (Inr user, st5) \<Rightarrow>
                                 if n \<ge> voucher_limit user then (Inl VoucherLimitExceeded, st5)
                                 else (Inr (), st5))) of
                    (Inl e, st5) \<Rightarrow> (Inl e, st5)
                  | (Inr u, st5) \<Rightarrow>
                    if \<not> isValidVoucherCodeFormat (voucherCode request)
                    then (Inl (InvalidVoucherCode ''Invalid voucher code format''), st5)
                    else
                    (case getVoucherCode (db_state st5) (voucherCode request) of
                       None \<Rightarrow> (Inl (InvalidVoucherCode ''Voucher code not found''), st5)
                     | Some voucher \<Rightarrow>
                       if \<not> isVoucherCodeValid voucher (userId request) now
                       then (Inl (InvalidVoucherCode ''Voucher code is not valid or has expired''), st5)
                       else
                       (case getUser st5 (userId request) now of
                          (Inl e, st6) \<Rightarrow> (Inl e, st6)
                        | (Inr user, st6) \<Rightarrow>
                          if is_premium user
                          then
                            (case processClaimImmediate st6 request now timedOut of
                               (Inl e, st7) \<Rightarrow> (Inl e, st7)
                             | (Inr result, st7) \<Rightarrow>
                                 (Inr result,
                                  st7\<lparr>redis_state := cacheClaimResult (redis_state st7)
                                         (idempotencyKey request) result now\<rparr>))
                          else
                            (case addClaimJob st6 (claim_job request now) of
                               (jobId, st7) \<Rightarrow> (Inr (queued_response jobId), st7)))))))))"

section \<open>Sequences of operations\<close>

text \<open>The operations that change a user's count: a claim through the front path, a queued
  claim processed by the worker, and a refund.\<close>

datatype operation =
    Claim ClaimVoucherRequest int bool
  | Work QueueJob int
  | Refund int string "int option" int

fun apply_operation :: "system \<Rightarrow> operation \<Rightarrow> system" where
  "apply_operation st (Claim request now timedOut) = snd (claimVoucher st request now timedOut)"
| "apply_operation st (Work job now) = snd (processJob st job now)"
| "apply_operation st (Refund claimId reason adminId now) =
     snd (refundVoucher st claimId reason adminId now)"

text \<open>Every user row of the store has \<open>0 \<le> vouchers_claimed \<le> voucher_limit\<close>.\<close>

definition users_within_limit :: "database \<Rightarrow> bool" where
  "users_within_limit d \<longleftrightarrow>
     list_all (\<lambda>u. 0 \<le> vouchers_claimed u \<and> vouchers_claimed u \<le> voucher_limit u) (users d)"

section \<open>Scenarios\<close>

text \<open>
  The data of the end-to-end scenarios: users 3 and 5 are premium, users 4 and 6 are not;
  users 3 and 4 have claimed nothing, users 5 and 6 have reached their limit;
  \<open>SUMMER2024\<close> is active, unused, capped at 1000 uses and open to everyone; \<open>VIPONLY24\<close> is
  the same code restricted to user 99. Nothing is cached, no attempt is recorded, the
  breaker is new and the queue is empty.
\<close>

definition user3 :: user_row where
  "user3 = \<lparr> u_id = 3, email = ''user3@example.com'', vouchers_claimed = 0,
             voucher_limit = 10, is_premium = True, u_is_active = True \<rparr>"

definition user4 :: user_row where
  "user4 = \<lparr> u_id = 4, email = ''user4@example.com'', vouchers_claimed = 0,
             voucher_limit = 10, is_premium = False, u_is_active = True \<rparr>"

definition user5 :: user_row where
  "user5 = \<lparr> u_id = 5, email = ''user5@example.com'', vouchers_claimed = 10,
             voucher_limit = 10, is_premium = True, u_is_active = True \<rparr>"

definition user6 :: user_row where
  "user6 = \<lparr> u_id = 6, email = ''user6@example.com'', vouchers_claimed = 10,
             voucher_limit = 10, is_premium = False, u_is_active = True \<rparr>"

definition summer2024 :: voucher_code_row where
  "summer2024 = \<lparr> vc_id = 1, code = ''SUMMER2024'', vc_is_active = True, is_used = False,
                  used_by = None, used_at = None, usage_limit = 1000, usage_count = 0,
                  valid_from = Some 0, expires_at = Some 9000000, allowed_user_ids = None \<rparr>"

definition viponly24 :: voucher_code_row where
  "viponly24 = \<lparr> vc_id = 2, code = ''VIPONLY24'', vc_is_active = True, is_used = False,
                 used_by = None, used_at = None, usage_limit = 1000, usage_count = 0,
                 valid_from = Some 0, expires_at = Some 9000000, allowed_user_ids = Some [99] \<rparr>"

definition db0 :: database where
  "db0 = \<lparr> users = [user3, user4, user5, user6], voucher_codes = [summer2024, viponly24],
           voucher_claims = [], voucher_audit_log = [], voucher_claims_id_seq = 1 \<rparr>"

definition kv0 :: redis_store where
  "kv0 = \<lparr> claim_result_keys = Map.empty, user_vouchers_keys = Map.empty,
           user_data_keys = Map.empty, rate_limit_user_keys = Map.empty,
           rate_limit_ip_keys = Map.empty \<rparr>"

definition sys0 :: system where
  "sys0 = \<lparr> db_state = db0, redis_state = kv0, cacheHits = 0, cacheMisses = 0,
            dbCircuitBreaker = dbCircuitBreaker_init 0, voucherQueue = [] \<rparr>"

text \<open>
  Idempotency keys. The column \<open>voucher_claims.request_id\<close> has the type \<open>UUID\<close> and
  \<open>ip_address\<close> the type \<open>INET\<close>; the model does not parse either, it takes the key and the
  address of a request to be texts the store accepts for these types, as the keys the
  route generates are. The keys of the scenarios are UUID texts.
\<close>

definition key_r1 :: string where "key_r1 = ''00000000-0000-4000-8000-0000000000a1''"

definition key_r5 :: string where "key_r5 = ''00000000-0000-4000-8000-0000000000a5''"

definition key_r7 :: string where "key_r7 = ''00000000-0000-4000-8000-0000000000a7''"

definition key_q1 :: string where "key_q1 = ''00000000-0000-4000-8000-0000000000b1''"

definition key_q2 :: string where "key_q2 = ''00000000-0000-4000-8000-0000000000b2''"

definition key_q6 :: string where "key_q6 = ''00000000-0000-4000-8000-0000000000b6''"

definition key_q7 :: string where "key_q7 = ''00000000-0000-4000-8000-0000000000b7''"

text \<open>Requests of the premium users: user 3 claims \<open>SUMMER2024\<close> under the key \<open>key_r1\<close> and
  the restricted code under \<open>key_r7\<close>; user 5, at the limit, claims \<open>SUMMER2024\<close> under
  \<open>key_r5\<close>.\<close>

definition r1 :: ClaimVoucherRequest where
  "r1 = \<lparr> userId = 3, voucherCode = ''SUMMER2024'', ipAddress = ''10.0.0.3'',
          userAgent = ''ua'', deviceId = None, idempotencyKey = key_r1 \<rparr>"

definition r5 :: ClaimVoucherRequest where
  "r5 = \<lparr> userId = 5, voucherCode = ''SUMMER2024'', ipAddress = ''10.0.0.5'',
          userAgent = ''ua'', deviceId = None, idempotencyKey = key_r5 \<rparr>"

definition r7 :: ClaimVoucherRequest where
  "r7 = \<lparr> userId = 3, voucherCode = ''VIPONLY24'', ipAddress = ''10.0.0.3'',
          userAgent = ''ua'', deviceId = None, idempotencyKey = key_r7 \<rparr>"

text \<open>Requests of the other users, and the jobs \<open>claimVoucher\<close> queues for them: user 4
  claims \<open>SUMMER2024\<close> twice, under the keys \<open>key_q1\<close> (at time 900) and \<open>key_q2\<close> (at time
  1900), and the restricted code under \<open>key_q7\<close>; user 6, at the limit, claims
  \<open>SUMMER2024\<close> under \<open>key_q6\<close>.\<close>

definition r4a :: ClaimVoucherRequest where
  "r4a = \<lparr> userId = 4, voucherCode = ''SUMMER2024'', ipAddress = ''10.0.0.4'',
           userAgent = ''ua'', deviceId = None, idempotencyKey = key_q1 \<rparr>"

definition r4b :: ClaimVoucherRequest where
  "r4b = \<lparr> userId = 4, voucherCode = ''SUMMER2024'', ipAddress = ''10.0.0.4'',
           userAgent = ''ua'', deviceId = None, idempotencyKey = key_q2 \<rparr>"

definition r4v :: ClaimVoucherRequest where
  "r4v = \<lparr> userId = 4, voucherCode = ''VIPONLY24'', ipAddress = ''10.0.0.4'',
           userAgent = ''ua'', deviceId = None, idempotencyKey = key_q7 \<rparr>"

definition r6 :: ClaimVoucherRequest where
  "r6 = \<lparr> userId = 6, voucherCode = ''SUMMER2024'', ipAddress = ''10.0.0.6'',
          userAgent = ''ua'', deviceId = None, idempotencyKey = key_q6 \<rparr>"

definition job4a :: QueueJob where
  "job4a = claim_job r4a 900"

definition job4b :: QueueJob where
  "job4b = claim_job r4b 1900"

definition job7 :: QueueJob where
  "job7 = claim_job r4v 900"

definition job6 :: QueueJob where
  "job6 = claim_job r6 900"

text \<open>The state after user 4 has asked twice, at times 900 and 1900.\<close>

definition sys_queued :: system where
  "sys_queued = snd (claimVoucher (snd (claimVoucher sys0 r4a 900 False)) r4b 1900 False)"

text \<open>The state after the worker has processed the job of user 6 at time 1000, with the
  limit of user 6 then raised from 10 to 20.\<close>

definition sys_limit_raised :: system where
  "sys_limit_raised =
     (snd (processJob sys0 job6 1000))
       \<lparr>db_state := db0\<lparr>users := [user3, user4, user5, user6\<lparr>voucher_limit := 20\<rparr>]\<rparr>\<rparr>"

text \<open>A state in which user 7 has one recorded attempt, at time 99000.\<close>

definition sys_rate :: system where
  "sys_rate = sys0\<lparr>redis_state := kv0\<lparr>rate_limit_user_keys := [7 \<mapsto> ([99000], 159000)]\<rparr>\<rparr>"

section \<open>Unfolding rules\<close>

lemmas store_defs =
  update_users_def update_voucher_codes_def users_check_def voucher_codes_check_def
  increment_voucher_code_usage_def log_claim_to_audit_def insert_voucher_claim_def
  transaction_def select_active_user_def select_voucher_code_def select_success_claims_def
  select_claim_def expired_def

lemmas cache_defs =
  live_def getClaimResult_def cacheClaimResult_def getUserVoucherCount_def
  setUserVoucherCount_def cache_getUser_def setUser_def invalidateUserCache_def

lemmas claim_defs =
  increment_vouchers_claimed_def use_voucher_code_immediate_def success_claim_row_def
  claimed_response_def processClaimImmediate_callback_def claim_transaction_immediate_def
  processClaimImmediate_def use_voucher_code_worker_def limit_reached_response_def
  processJob_callback_def processJob_def refundVoucher_callback_def refundVoucher_def

lemmas breaker_defs =
  or_default_def new_CircuitBreaker_def onSuccess_def onFailure_def execute_def
  dbCircuitBreaker_init_def

lemmas front_defs =
  zremrangebyscore_def zadd_def zrange_lowest_def attempts_in_window_def checkRateLimit_def
  checkIPRateLimit_def addClaimJob_def getUser_def getVoucherCode_def
  isValidVoucherCodeFormat_def isVoucherCodeValid_def ceil_seconds_def queued_response_def
  claim_job_def claimVoucher_def

lemmas scenario_defs =
  user3_def user4_def user5_def user6_def summer2024_def viponly24_def db0_def kv0_def
  sys0_def key_r1_def key_r5_def key_r7_def key_q1_def key_q2_def key_q6_def key_q7_def
  r1_def r5_def r7_def r4a_def r4b_def r4v_def r6_def job4a_def job4b_def job6_def job7_def

lemmas eval_defs =
  store_defs cache_defs claim_defs breaker_defs front_defs scenario_defs Let_def

section \<open>Supporting lemmas\<close>

subsection \<open>Transactions\<close>

lemma transaction_invariant:
  assumes "\<And>r d' k'. callback (d, k) = (Inr r, (d', k')) \<Longrightarrow> P d'" and "P d"
  shows "P (fst (snd (transaction callback (d, k))))"
  using assms by (auto simp: transaction_def split: prod.splits sum.splits)

lemma update_users_within_limit:
  "update_users wh upd d = Inr d' \<Longrightarrow> users_within_limit d \<Longrightarrow> users_within_limit d'"
  by (auto simp: update_users_def users_within_limit_def users_check_def list_all_iff
      split: if_splits)

lemma update_voucher_codes_users:
  "update_voucher_codes wh upd d = Inr d' \<Longrightarrow> users d' = users d"
  by (auto simp: update_voucher_codes_def split: if_splits)

lemma insert_voucher_claim_users:
  "insert_voucher_claim row d = Inr (cid, d') \<Longrightarrow> users d' = users d"
  by (auto simp: insert_voucher_claim_def increment_voucher_code_usage_def
        log_claim_to_audit_def Let_def
      split: sum.splits option.splits if_splits dest!: update_voucher_codes_users)

subsection \<open>The user limit is kept by every transaction\<close>

lemma fast_callback_within_limit:
  assumes "processClaimImmediate_callback request now (d, kv) = (Inr r, (d', kv'))"
      and "users_within_limit d"
  shows "users_within_limit d'"
  using assms
  by (auto simp: processClaimImmediate_callback_def increment_vouchers_claimed_def
        use_voucher_code_immediate_def users_within_limit_def
      split: list.splits if_splits sum.splits prod.splits
      dest!: update_voucher_codes_users insert_voucher_claim_users
      dest: update_users_within_limit [unfolded users_within_limit_def])

lemma worker_callback_within_limit:
  assumes "processJob_callback job now (d, kv) = (Inr r, (d', kv'))"
      and "users_within_limit d"
  shows "users_within_limit d'"
  using assms
  by (auto simp: processJob_callback_def increment_vouchers_claimed_def
        use_voucher_code_worker_def users_within_limit_def
      split: list.splits if_splits sum.splits prod.splits
      dest!: update_voucher_codes_users insert_voucher_claim_users
      dest: update_users_within_limit [unfolded users_within_limit_def])

lemma refund_callback_within_limit:
  assumes "refundVoucher_callback claimId reason adminId now (d, kv) = (Inr r, (d', kv'))"
      and "users_within_limit d"
  shows "users_within_limit d'"
  using assms
  by (auto simp: refundVoucher_callback_def users_within_limit_def Let_def
      split: list.splits if_splits sum.splits prod.splits option.splits
      dest!: update_voucher_codes_users
      dest: update_users_within_limit [unfolded users_within_limit_def])

lemma processJob_within_limit:
  assumes "users_within_limit (db_state st)"
  shows "users_within_limit (db_state (snd (processJob st job now)))"
proof -
  have "users_within_limit
          (fst (snd (transaction (processJob_callback job now) (db_state st, redis_state st))))"
    by (rule transaction_invariant [where P = users_within_limit])
       (auto intro: worker_callback_within_limit assms)
  then show ?thesis
    by (auto simp: processJob_def split: prod.splits sum.splits)
qed

lemma refundVoucher_within_limit:
  assumes "users_within_limit (db_state st)"
  shows "users_within_limit (db_state (snd (refundVoucher st claimId reason adminId now)))"
proof -
  have "users_within_limit
          (fst (snd (transaction (refundVoucher_callback claimId reason adminId now)
                       (db_state st, redis_state st))))"
    by (rule transaction_invariant [where P = users_within_limit])
       (auto intro: refund_callback_within_limit assms)
  then show ?thesis
    by (simp add: refundVoucher_def Let_def)
qed

lemma processClaimImmediate_within_limit:
  assumes "users_within_limit (db_state st)"
  shows "users_within_limit (db_state (snd (processClaimImmediate st request now timedOut)))"
proof -
  have "users_within_limit
          (fst (snd (transaction (processClaimImmediate_callback request now)
                       (db_state st, redis_state st))))"
    by (rule transaction_invariant [where P = users_within_limit])
       (auto intro: fast_callback_within_limit assms)
  then show ?thesis
    using assms
    by (auto simp: processClaimImmediate_def execute_def claim_transaction_immediate_def Let_def
        split: sum.splits)
qed

subsection \<open>The front path touches the store only through the claim transaction\<close>

lemma db_state_getClaimResult [simp]: "db_state (snd (getClaimResult st k now)) = db_state st"
  by (simp add: getClaimResult_def split: option.splits)

lemma db_state_checkRateLimit [simp]: "db_state (snd (checkRateLimit st u m w now)) = db_state st"
  by (simp add: checkRateLimit_def Let_def)

lemma db_state_checkIPRateLimit [simp]:
  "db_state (snd (checkIPRateLimit st ip m w now)) = db_state st"
  by (simp add: checkIPRateLimit_def Let_def)

lemma db_state_getUserVoucherCount [simp]:
  "db_state (snd (getUserVoucherCount st u now)) = db_state st"
  by (simp add: getUserVoucherCount_def split: option.splits)

lemma db_state_getUser [simp]: "db_state (snd (getUser st u now)) = db_state st"
  by (simp add: getUser_def cache_getUser_def split: option.splits list.splits)

lemma db_state_addClaimJob [simp]: "db_state (snd (addClaimJob st j)) = db_state st"
  by (simp add: addClaimJob_def)

lemma claimVoucher_within_limit:
  "users_within_limit (db_state st) \<Longrightarrow>
   users_within_limit (db_state (snd (claimVoucher st request now timedOut)))"
  by (simp add: claimVoucher_def case_prod_unfold processClaimImmediate_within_limit
      split: option.split sum.split)

lemma apply_operation_within_limit:
  "users_within_limit (db_state st) \<Longrightarrow> users_within_limit (db_state (apply_operation st op))"
  by (cases op)
     (simp_all add: claimVoucher_within_limit processJob_within_limit refundVoucher_within_limit)

subsection \<open>The limit check of the two claim transactions\<close>

lemma fast_limit:
  assumes "select_active_user d (userId request) = user # rest"
      and "vouchers_claimed user \<ge> voucher_limit user"
  shows "claim_transaction_immediate request now (d, kv) = (Inl VoucherLimitExceeded, (d, kv))"
  using assms
  by (simp add: claim_transaction_immediate_def transaction_def processClaimImmediate_callback_def)

lemma worker_limit:
  assumes "select_active_user d (userId job) = user # rest"
      and "vouchers_claimed user \<ge> voucher_limit user"
  shows "transaction (processJob_callback job now) (d, kv) = (Inr limit_reached_response, (d, kv))"
  using assms by (simp add: transaction_def processJob_callback_def)

subsection \<open>The idempotency cache\<close>

lemma cache_hit:
  assumes "live now (claim_result_keys (redis_state st) (idempotencyKey request)) = Some cached"
  shows "claimVoucher st request now timedOut
           = (Inr cached, st\<lparr>cacheHits := cacheHits st + 1\<rparr>)"
  using assms by (simp add: claimVoucher_def getClaimResult_def)

lemma fresh_result_cached_or_pending:
  assumes "live t1 (claim_result_keys (redis_state st) (idempotencyKey request)) = None"
  shows "case fst (claimVoucher st request t1 timedOut) of
           Inl e \<Rightarrow> True
         | Inr result \<Rightarrow>
             status result = Some S_pending \<or>
             claim_result_keys (redis_state (snd (claimVoucher st request t1 timedOut)))
               (idempotencyKey request) = Some (result, t1 + 3600 * 1000)"
  using assms
  by (simp add: claimVoucher_def getClaimResult_def case_prod_unfold cacheClaimResult_def
        queued_response_def split: option.split sum.split)

lemma fresh_success_is_cached:
  assumes "live t1 (claim_result_keys (redis_state st) (idempotencyKey request)) = None"
      and "claimVoucher st request t1 timedOut = (Inr result, st1)"
      and "status result = Some S_success"
  shows "claim_result_keys (redis_state st1) (idempotencyKey request)
           = Some (result, t1 + 3600 * 1000)"
  using fresh_result_cached_or_pending [OF assms(1), of timedOut] assms(2,3) by simp

subsection \<open>The sliding window\<close>

lemma zrange_lowest_zadd:
  "zrange_lowest (zadd kept now) = Some (Min (insert now (set kept)))"
proof -
  have "zadd kept now \<noteq> []" by (auto simp: zadd_def List.insert_def)
  then obtain x xs where e: "zadd kept now = x # xs" by (cases "zadd kept now") auto
  have "set (zadd kept now) = insert now (set kept)" by (simp add: zadd_def)
  then have "Min (insert now (set kept)) = Min (set (x # xs))" using e by simp
  also have "\<dots> = fold min xs x" by (rule Min.set_eq_fold)
  finally show ?thesis using e by (simp add: zrange_lowest_def)
qed

subsection \<open>The checks on the locked voucher row\<close>

lemma fast_step4:
  assumes "select_active_user d (userId request) = user # rest"
      and "vouchers_claimed user < voucher_limit user"
      and "select_voucher_code d (voucherCode request) = voucher # others"
  shows "(\<not> vc_is_active voucher \<longrightarrow>
           claim_transaction_immediate request now (d, kv)
             = (Inl (InvalidVoucherCode ''Voucher code is inactive''), (d, kv)))
       \<and> (vc_is_active voucher \<and> expired voucher now \<longrightarrow>
           claim_transaction_immediate request now (d, kv)
             = (Inl (InvalidVoucherCode ''Voucher code has expired''), (d, kv)))
       \<and> (vc_is_active voucher \<and> \<not> expired voucher now
            \<and> usage_count voucher \<ge> usage_limit voucher \<longrightarrow>
           claim_transaction_immediate request now (d, kv)
             = (Inl (InvalidVoucherCode ''Voucher code usage limit reached''), (d, kv)))"
  using assms
  by (simp add: claim_transaction_immediate_def transaction_def processClaimImmediate_callback_def)

lemma fast_step4_pass:
  assumes "select_active_user d (userId request) = user # rest"
      and "vouchers_claimed user < voucher_limit user"
      and "select_voucher_code d (voucherCode request) = voucher # others"
      and "vc_is_active voucher" "\<not> expired voucher now"
      and "usage_count voucher < usage_limit voucher"
      and "select_success_claims d (userId request) (voucherCode request) = []"
  shows "fst (claim_transaction_immediate request now (d, kv)) = Inr (claimed_response user)
       \<or> fst (claim_transaction_immediate request now (d, kv)) = Inl (DbError ''check_violation'')"
  using assms
  by (auto simp: claim_transaction_immediate_def transaction_def processClaimImmediate_callback_def
        increment_vouchers_claimed_def use_voucher_code_immediate_def insert_voucher_claim_def
        increment_voucher_code_usage_def success_claim_row_def
        update_users_def update_voucher_codes_def Let_def
      split: sum.splits prod.splits if_splits)

lemma fast_rejects_second_claim:
  assumes "select_active_user d (userId request) = user # rest"
      and "vouchers_claimed user < voucher_limit user"
      and "select_voucher_code d (voucherCode request) = voucher # others"
      and "vc_is_active voucher" "\<not> expired voucher now"
      and "usage_count voucher < usage_limit voucher"
      and "select_success_claims d (userId request) (voucherCode request) \<noteq> []"
  shows "claim_transaction_immediate request now (d, kv)
           = (Inl (InvalidVoucherCode ''You have already claimed this voucher''), (d, kv))"
  using assms
  by (simp add: claim_transaction_immediate_def transaction_def processClaimImmediate_callback_def)

lemma worker_step4:
  assumes "select_active_user d (userId job) = user # rest"
      and "vouchers_claimed user < voucher_limit user"
      and "select_voucher_code d (voucherCode job) = voucher # others"
      and "\<not> vc_is_active voucher \<or> expired voucher now
           \<or> usage_count voucher \<ge> usage_limit voucher"
  shows "transaction (processJob_callback job now) (d, kv)
           = (Inl (Error ''Voucher code is not valid''), (d, kv))"
  using assms
  by (auto simp: transaction_def processJob_callback_def)

lemma worker_step4_pass:
  assumes "select_active_user d (userId job) = user # rest"
      and "vouchers_claimed user < voucher_limit user"
      and "select_voucher_code d (voucherCode job) = voucher # others"
      and "vc_is_active voucher" "\<not> expired voucher now"
      and "usage_count voucher < usage_limit voucher"
  shows "fst (transaction (processJob_callback job now) (d, kv)) = Inr (claimed_response user)
       \<or> fst (transaction (processJob_callback job now) (d, kv))
            = Inl (DbError ''check_violation'')"
  using assms
  by (auto simp: transaction_def processJob_callback_def
        increment_vouchers_claimed_def use_voucher_code_worker_def insert_voucher_claim_def
        increment_voucher_code_usage_def success_claim_row_def
        update_users_def update_voucher_codes_def Let_def
      split: sum.splits prod.splits if_splits)

subsection \<open>Every successful claim adds two to the usage count of its code\<close>

lemma filter_id_map_update:
  assumes "\<And>v. vc_id (f v) = vc_id v"
  shows "filter (\<lambda>v. vc_id v = i) (map (\<lambda>v. if vc_id v = i then f v else v) xs)
         = map f (filter (\<lambda>v. vc_id v = i) xs)"
  by (induction xs) (simp_all add: assms)

lemma update_voucher_codes_rows:
  "update_voucher_codes wh upd d = Inr d' \<Longrightarrow>
   voucher_codes d' = map (\<lambda>v. if wh v then upd v else v) (voucher_codes d)"
  by (auto simp: update_voucher_codes_def split: if_splits)

lemma update_users_voucher_codes:
  "update_users wh upd d = Inr d' \<Longrightarrow> voucher_codes d' = voucher_codes d"
  by (auto simp: update_users_def split: if_splits)

lemma insert_success_claim_voucher_codes:
  "insert_voucher_claim (success_claim_row request vid now) d = Inr (cid, d') \<Longrightarrow>
   voucher_codes d' =
     map (\<lambda>v. if vc_id v = vid
               then v\<lparr>usage_count := usage_count v + 1,
                      is_used := (if usage_count v + 1 \<ge> usage_limit v then True else is_used v)\<rparr>
               else v) (voucher_codes d)"
  by (auto simp: insert_voucher_claim_def increment_voucher_code_usage_def success_claim_row_def
        log_claim_to_audit_def Let_def
      split: sum.splits dest!: update_voucher_codes_rows)

lemma fast_claim_adds_two:
  assumes "processClaimImmediate_callback request now (d, kv) = (Inr r, (d', kv'))"
      and "select_voucher_code d (voucherCode request) = voucher # others"
  shows "map usage_count (filter (\<lambda>v. vc_id v = vc_id voucher) (voucher_codes d'))
         = map (\<lambda>v. usage_count v + 2) (filter (\<lambda>v. vc_id v = vc_id voucher) (voucher_codes d))"
proof -
  from assms obtain d1 d2 cid where
    s1: "increment_vouchers_claimed (userId request) d = Inr d1" and
    s2: "use_voucher_code_immediate (userId request) (vc_id voucher) now d1 = Inr d2" and
    s3: "insert_voucher_claim (success_claim_row request (vc_id voucher) now) d2 = Inr (cid, d')"
    by (auto simp: processClaimImmediate_callback_def
        split: list.splits if_splits sum.splits prod.splits)
  have c1: "voucher_codes d1 = voucher_codes d"
    using s1 by (auto simp: increment_vouchers_claimed_def dest: update_users_voucher_codes)
  have c2: "voucher_codes d2 =
     map (\<lambda>v. if vc_id v = vc_id voucher
               then v\<lparr>usage_count := usage_count v + 1,
              is_used := (if usage_count v + 1 \<ge> usage_limit v then True else is_used v),
              used_by := (if usage_limit v = 1 then Some (userId request) else used_by v),
              used_at := (if usage_limit v = 1 then Some now else used_at v)\<rparr>
               else v) (voucher_codes d)"
    using s2 c1 by (auto simp: use_voucher_code_immediate_def dest!: update_voucher_codes_rows)
  note c3 = insert_success_claim_voucher_codes [OF s3]
  have f2: "filter (\<lambda>v. vc_id v = vc_id voucher) (voucher_codes d2)
            = map (\<lambda>v. v\<lparr>usage_count := usage_count v + 1,
              is_used := (if usage_count v + 1 \<ge> usage_limit v then True else is_used v),
              used_by := (if usage_limit v = 1 then Some (userId request) else used_by v),
              used_at := (if usage_limit v = 1 then Some now else used_at v)\<rparr>)
                (filter (\<lambda>v. vc_id v = vc_id voucher) (voucher_codes d))"
    unfolding c2 by (rule filter_id_map_update) simp
  have f3: "filter (\<lambda>v. vc_id v = vc_id voucher) (voucher_codes d')
            = map (\<lambda>v. v\<lparr>usage_count := usage_count v + 1,
              is_used := (if usage_count v + 1 \<ge> usage_limit v then True else is_used v)\<rparr>)
                (filter (\<lambda>v. vc_id v = vc_id voucher) (voucher_codes d2))"
    unfolding c3 by (rule filter_id_map_update) simp
  show ?thesis
    by (simp add: f3 f2 comp_def)
qed


lemma worker_claim_adds_two:
  assumes "processJob_callback job now (d, kv) = (Inr r, (d', kv'))"
      and "status r = Some S_success"
      and "select_voucher_code d (voucherCode job) = voucher # others"
  shows "map usage_count (filter (\<lambda>v. vc_id v = vc_id voucher) (voucher_codes d'))
         = map (\<lambda>v. usage_count v + 2) (filter (\<lambda>v. vc_id v = vc_id voucher) (voucher_codes d))"
proof -
  from assms obtain d1 d2 cid where
    s1: "increment_vouchers_claimed (userId job) d = Inr d1" and
    s2: "use_voucher_code_worker (vc_id voucher) d1 = Inr d2" and
    s3: "insert_voucher_claim (success_claim_row job (vc_id voucher) now) d2 = Inr (cid, d')"
    by (auto simp: processJob_callback_def limit_reached_response_def
        split: list.splits if_splits sum.splits prod.splits)
  have c1: "voucher_codes d1 = voucher_codes d"
    using s1 by (auto simp: increment_vouchers_claimed_def dest: update_users_voucher_codes)
  have c2: "voucher_codes d2 =
     map (\<lambda>v. if vc_id v = vc_id voucher
               then v\<lparr>usage_count := usage_count v + 1,
              is_used := (if usage_count v + 1 \<ge> usage_limit v then True else is_used v)\<rparr>
               else v) (voucher_codes d)"
    using s2 c1 by (auto simp: use_voucher_code_worker_def dest!: update_voucher_codes_rows)
  note c3 = insert_success_claim_voucher_codes [OF s3]
  have f2: "filter (\<lambda>v. vc_id v = vc_id voucher) (voucher_codes d2)
            = map (\<lambda>v. v\<lparr>usage_count := usage_count v + 1,
              is_used := (if usage_count v + 1 \<ge> usage_limit v then True else is_used v)\<rparr>)
                (filter (\<lambda>v. vc_id v = vc_id voucher) (voucher_codes d))"
    unfolding c2 by (rule filter_id_map_update) simp
  have f3: "filter (\<lambda>v. vc_id v = vc_id voucher) (voucher_codes d')
            = map (\<lambda>v. v\<lparr>usage_count := usage_count v + 1,
              is_used := (if usage_count v + 1 \<ge> usage_limit v then True else is_used v)\<rparr>)
                (filter (\<lambda>v. vc_id v = vc_id voucher) (voucher_codes d2))"
    unfolding c3 by (rule filter_id_map_update) simp
  show ?thesis
    by (simp add: f3 f2 comp_def)
qed

subsection \<open>What a refund changes, and the second refund\<close>

lemma filter_claim_id_map_update:
  assumes "\<And>r. c_id (f r) = c_id r"
  shows "filter (\<lambda>r. c_id r = i) (map (\<lambda>r. if c_id r = i then f r else r) xs)
         = map f (filter (\<lambda>r. c_id r = i) xs)"
  by (induction xs) (simp_all add: assms)

lemma update_users_voucher_claims:
  "update_users wh upd d = Inr d' \<Longrightarrow> voucher_claims d' = voucher_claims d"
  by (auto simp: update_users_def split: if_splits)

lemma update_voucher_codes_voucher_claims:
  "update_voucher_codes wh upd d = Inr d' \<Longrightarrow> voucher_claims d' = voucher_claims d"
  by (auto simp: update_voucher_codes_def split: if_splits)

lemma refund_marks_claim:
  assumes "refundVoucher_callback claimId reason adminId now (d, kv) = (Inr u, (d', kv'))"
  shows "select_claim d claimId \<noteq> []
       \<and> select_claim d' claimId
           = map (\<lambda>r. r\<lparr>c_status := REFUNDED, refunded_at := Some now,
                         refunded_by := adminId, refund_reason := Some reason\<rparr>)
               (select_claim d claimId)"
proof -
  have "select_claim d claimId \<noteq> []"
    using assms by (auto simp: refundVoucher_callback_def)
  moreover have "voucher_claims d'
      = map (\<lambda>r. if c_id r = claimId
                then r\<lparr>c_status := REFUNDED, refunded_at := Some now,
                       refunded_by := adminId, refund_reason := Some reason\<rparr>
                else r) (voucher_claims d)"
    using assms
    by (auto simp: refundVoucher_callback_def Let_def
        split: list.splits if_splits sum.splits option.splits
        dest!: update_users_voucher_claims update_voucher_codes_voucher_claims)
  ultimately show ?thesis
    by (simp add: select_claim_def filter_claim_id_map_update)
qed

lemma second_refund_fails:
  assumes "refundVoucher_callback claimId reason adminId now (d, kv) = (Inr u, (d', kv'))"
  shows "transaction (refundVoucher_callback claimId reason2 adminId2 now2) (d', kv2)
           = (Inl (Error ''Claim already refunded''), (d', kv2))"
proof -
  from refund_marks_claim [OF assms] obtain claim rest where
    "select_claim d' claimId = claim # rest" and "c_status claim = REFUNDED"
    by (cases "select_claim d claimId") auto
  then show ?thesis
    by (simp add: transaction_def refundVoucher_callback_def)
qed


lemma update_users_frame:
  "update_users wh upd d = Inr d' \<Longrightarrow>
   users d' = map (\<lambda>u. if wh u then upd u else u) (users d)
   \<and> voucher_codes d' = voucher_codes d \<and> voucher_claims d' = voucher_claims d
   \<and> voucher_audit_log d' = voucher_audit_log d"
  by (auto simp: update_users_def split: if_splits)

lemma update_voucher_codes_frame:
  "update_voucher_codes wh upd d = Inr d' \<Longrightarrow>
   voucher_codes d' = map (\<lambda>v. if wh v then upd v else v) (voucher_codes d)
   \<and> users d' = users d \<and> voucher_claims d' = voucher_claims d
   \<and> voucher_audit_log d' = voucher_audit_log d"
  by (auto simp: update_voucher_codes_def split: if_splits)

lemma refund_effects:
  assumes "refundVoucher_callback claimId reason adminId now (d, kv) = (Inr u, (d', kv'))"
      and "select_claim d claimId = claim # rest"
  shows "c_status claim \<noteq> REFUNDED
       \<and> users d' = map (\<lambda>u. if u_id u = c_user_id claim
                              then u\<lparr>vouchers_claimed := max 0 (vouchers_claimed u - 1)\<rparr>
                              else u) (users d)
       \<and> voucher_codes d'
           = (case c_voucher_code_id claim of
                None \<Rightarrow> voucher_codes d
              | Some vid \<Rightarrow>
                  if vid = 0 then voucher_codes d
                  else map (\<lambda>v. if vc_id v = vid
                                 then v\<lparr>usage_count := max 0 (usage_count v - 1),
                                        is_used := False\<rparr>
                                 else v) (voucher_codes d))
       \<and> voucher_audit_log d'
           = voucher_audit_log d @
             [\<lparr> a_user_id = Some (c_user_id claim), a_action = REFUND,
                a_voucher_code = Some (c_voucher_code claim),
                a_voucher_code_id = c_voucher_code_id claim,
                a_claim_id = Some claimId,
                a_ip_address = None, a_user_agent = None, a_device_id = None,
                a_refund_metadata = Some (reason, adminId) \<rparr>]"
  using assms
  by (auto simp: refundVoucher_callback_def Let_def
      split: if_splits sum.splits option.splits
      dest!: update_users_frame update_voucher_codes_frame)

subsection \<open>The guards of the code keep the user's count within the constraints\<close>

text \<open>With unique user ids, the increment of the claim transaction is never the one
  the check constraint stops, and the floored decrement of the refund never is.\<close>

lemma filter_key_distinct:
  assumes "distinct (map f xs)" and "x \<in> set xs"
  shows "filter (\<lambda>y. f y = f x) xs = [x]"
  using assms
proof (induction xs)
  case Nil
  then show ?case by simp
next
  case (Cons a xs)
  show ?case
  proof (cases "a = x")
    case True
    with Cons.prems have "f x \<notin> f ` set xs" by simp
    then have "\<forall>y \<in> set xs. f y \<noteq> f x" by (metis image_eqI)
    then have "filter (\<lambda>y. f y = f x) xs = []" by (simp add: filter_empty_conv)
    with True show ?thesis by simp
  next
    case False
    with Cons.prems have "x \<in> set xs" by simp
    moreover from this Cons.prems have "f a \<noteq> f x" by (metis distinct.simps(2) image_eqI list.simps(9) set_map)
    ultimately show ?thesis using Cons by simp
  qed
qed

lemma claim_increment_within_constraints:
  assumes "distinct (map u_id (users d))"
      and "users_within_limit d"
      and "select_active_user d uid = user # rest"
      and "vouchers_claimed user < voucher_limit user"
  shows "increment_vouchers_claimed uid d
           = Inr (d\<lparr>users := map (\<lambda>u. if u_id u = uid
                                     then u\<lparr>vouchers_claimed := vouchers_claimed u + 1\<rparr>
                                     else u) (users d)\<rparr>)"
proof -
  from assms(3) have "user \<in> set (filter (\<lambda>u. u_id u = uid \<and> u_is_active u) (users d))"
    by (simp add: select_active_user_def)
  then have m: "user \<in> set (users d)" and i: "u_id user = uid" by auto
  from filter_key_distinct [OF assms(1) m] i
  have f: "filter (\<lambda>u. u_id u = uid) (users d) = [user]" by simp
  from assms(2) m have "0 \<le> vouchers_claimed user"
    by (auto simp: users_within_limit_def list_all_iff)
  with assms(4) show ?thesis
    by (simp add: increment_vouchers_claimed_def update_users_def f users_check_def)
qed

lemma refund_decrement_within_constraints:
  assumes "list_all users_check (users d)"
  shows "update_users (\<lambda>u. u_id u = uid)
           (\<lambda>u. u\<lparr>vouchers_claimed := max 0 (vouchers_claimed u - 1)\<rparr>) d
         = Inr (d\<lparr>users := map (\<lambda>u. if u_id u = uid
                                   then u\<lparr>vouchers_claimed := max 0 (vouchers_claimed u - 1)\<rparr>
                                   else u) (users d)\<rparr>)"
  using assms
  by (auto simp: update_users_def users_check_def list_all_iff)

subsection \<open>The breaker after a failure\<close>

lemma onFailure_state:
  "state (onFailure cb now) = (if failureCount cb + 1 \<ge> failureThreshold (options cb) then OPEN else state cb)"
  by (simp add: onFailure_def Let_def)

section \<open>C1: uniqueness of a successful claim per user and code\<close>

text \<open>
  C1. At most one claim row with status success per (user, code), and a claim
  transaction that finds one fails with \<open>INVALID_VOUCHER\<close> on both paths. The fast path
  does so (lemma \<open>fast_rejects_second_claim\<close>). The worker's transaction has no such query:
  user 4 asks for \<open>SUMMER2024\<close> under the key \<open>key_q1\<close> and again under \<open>key_q2\<close>; both
  requests are queued; the worker processes the two jobs, the second one succeeds as
  well, and the store then holds two success rows for the pair.
\<close>

theorem C1_worker_claims_same_code_twice:
  "voucherQueue sys_queued = [job4a, job4b]
   \<and> fst (processJob sys_queued job4a 2000)
     = Inr \<lparr> success = True, message = ''Voucher claimed successfully'',
             vouchersRemaining = Some 9, requestId = None, status = Some S_success \<rparr>
   \<and> fst (processJob (snd (processJob sys_queued job4a 2000)) job4b 3000)
     = Inr \<lparr> success = True, message = ''Voucher claimed successfully'',
             vouchersRemaining = Some 8, requestId = None, status = Some S_success \<rparr>
   \<and> map request_id
         (select_success_claims
            (db_state (snd (processJob (snd (processJob sys_queued job4a 2000)) job4b 3000)))
            4 ''SUMMER2024'')
     = [key_q1, key_q2]"
  by (simp add: eval_defs sys_queued_def)

section \<open>C2: the counters after a successful claim\<close>

text \<open>
  C2. After a successful claim the code's \<open>usage_count\<close> is to have grown by exactly 1.
  On the happy path (user 3 claims \<open>SUMMER2024\<close> under the key \<open>key_r1\<close>) it grows from 0
  to 2:
  the transaction's own UPDATE adds 1, and the trigger \<open>increment_voucher_usage\<close> adds 1
  again when the claim row is inserted. The user's count grows by 1 and one success row
  carries the key. The same holds for every successful claim on either path (lemmas
  \<open>fast_claim_adds_two\<close> and \<open>worker_claim_adds_two\<close>).
\<close>

theorem C2_usage_count_grows_by_two:
  "fst (claimVoucher sys0 r1 1000 False)
     = Inr \<lparr> success = True, message = ''Voucher claimed successfully'',
             vouchersRemaining = Some 9, requestId = None, status = Some S_success \<rparr>
   \<and> map usage_count (select_voucher_code db0 ''SUMMER2024'') = [0]
   \<and> map usage_count
         (select_voucher_code (db_state (snd (claimVoucher sys0 r1 1000 False))) ''SUMMER2024'')
     = [2]
   \<and> map vouchers_claimed
         (select_active_user (db_state (snd (claimVoucher sys0 r1 1000 False))) 3) = [1]
   \<and> map request_id
         (select_success_claims (db_state (snd (claimVoucher sys0 r1 1000 False)))
            3 ''SUMMER2024'')
     = [key_r1]"
  by (simp add: eval_defs)

section \<open>C3: the user limit as an invariant\<close>

text \<open>
  C3. If every user row has \<open>0 \<le> vouchers_claimed \<le> voucher_limit\<close>, then so has every
  user row after any sequence of claims (front path or worker) and refunds. The claim
  transactions increment only below the limit, the refund decrements with a floor of 0
  (lemmas \<open>claim_increment_within_constraints\<close> and \<open>refund_decrement_within_constraints\<close>),
  and an UPDATE that would break a check constraint of \<open>users\<close> fails and is rolled back.
\<close>

theorem C3_users_within_limit_invariant:
  "users_within_limit (db_state st) \<Longrightarrow>
   users_within_limit (db_state (foldl apply_operation st ops))"
proof (induction ops arbitrary: st)
  case Nil
  then show ?case by simp
next
  case (Cons op ops)
  from Cons.prems have "users_within_limit (db_state (apply_operation st op))"
    by (rule apply_operation_within_limit)
  then show ?case using Cons.IH by simp
qed

text \<open>The scenario data satisfy the hypothesis; the sequence is the happy path, a queued
  claim of user 4, the refund of claim 1 and a claim of user 5, who is at the limit.\<close>

theorem C3_users_within_limit_invariant_witness:
  "users_within_limit (db_state sys0)
   \<and> users_within_limit
        (db_state (foldl apply_operation sys0
           [Claim r1 1000 False, Work job4a 2000, Refund 1 ''fraud'' None 3000,
            Claim r5 4000 False]))"
proof -
  have h: "users_within_limit (db_state sys0)"
    by (simp add: users_within_limit_def scenario_defs)
  from h C3_users_within_limit_invariant
            [OF h, where ops = "[Claim r1 1000 False, Work job4a 2000,
                                 Refund 1 ''fraud'' None 3000, Claim r5 4000 False]"]
  show ?thesis by (rule conjI)
qed

section \<open>C4: the limit check inside the claim transaction\<close>

text \<open>
  C4, as the code has it. When the locked user row has \<open>vouchers_claimed \<ge> voucher_limit\<close>,
  the transaction of the fast path fails with \<open>VoucherLimitExceeded\<close> (code
  \<open>LIMIT_EXCEEDED\<close>) and leaves the store and the key/value store as they were; the worker
  does not fail but returns the result \<open>limit_reached\<close>, and leaves the store as it was.
  No row of any table changes, the audit log included: no audit row is written.
\<close>

theorem C4_limit_reached_changes_nothing:
  assumes "select_active_user (db_state st) (userId request) = user # rest"
      and "vouchers_claimed user \<ge> voucher_limit user"
      and "select_active_user (db_state st) (userId job) = juser # jrest"
      and "vouchers_claimed juser \<ge> voucher_limit juser"
  shows "claim_transaction_immediate request now (db_state st, redis_state st)
           = (Inl VoucherLimitExceeded, (db_state st, redis_state st))
       \<and> error_code VoucherLimitExceeded = Some ''LIMIT_EXCEEDED''
       \<and> fst (processJob st job now) = Inr limit_reached_response
       \<and> db_state (snd (processJob st job now)) = db_state st"
  using assms by (simp add: fast_limit worker_limit processJob_def)

text \<open>User 5 on the fast path and the job of user 6 on the worker path.\<close>

theorem C4_limit_reached_changes_nothing_witness:
  "select_active_user (db_state sys0) (userId r5) = [user5]
   \<and> vouchers_claimed user5 \<ge> voucher_limit user5
   \<and> select_active_user (db_state sys0) (userId job6) = [user6]
   \<and> vouchers_claimed user6 \<ge> voucher_limit user6
   \<and> claim_transaction_immediate r5 1000 (db_state sys0, redis_state sys0)
           = (Inl VoucherLimitExceeded, (db_state sys0, redis_state sys0))
   \<and> error_code VoucherLimitExceeded = Some ''LIMIT_EXCEEDED''
   \<and> fst (processJob sys0 job6 1000) = Inr limit_reached_response
   \<and> db_state (snd (processJob sys0 job6 1000)) = db_state sys0"
proof -
  have h1: "select_active_user (db_state sys0) (userId r5) = user5 # []"
    by (simp add: select_active_user_def scenario_defs)
  have h2: "vouchers_claimed user5 \<ge> voucher_limit user5" by (simp add: user5_def)
  have h3: "select_active_user (db_state sys0) (userId job6) = user6 # []"
    by (simp add: select_active_user_def claim_job_def scenario_defs)
  have h4: "vouchers_claimed user6 \<ge> voucher_limit user6" by (simp add: user6_def)
  from C4_limit_reached_changes_nothing [OF h1 h2 h3 h4, where now = 1000] h1 h2 h3 h4
  show ?thesis by simp
qed

text \<open>The claim as stated fails. User 5, premium and at the limit, asks for \<open>SUMMER2024\<close>:
  the request fails with \<open>VoucherLimitExceeded\<close>, and the audit log, empty before, is
  empty after. User 6, at the limit, asks for it through the queue: the job does not
  fail, and the audit log is empty after it too.\<close>

theorem C4_no_limit_reached_audit_row:
  "voucher_audit_log (db_state sys0) = []
   \<and> fst (claimVoucher sys0 r5 1000 False) = Inl VoucherLimitExceeded
   \<and> voucher_audit_log (db_state (snd (claimVoucher sys0 r5 1000 False))) = []
   \<and> voucherQueue (snd (claimVoucher sys0 r6 900 False)) = [job6]
   \<and> fst (processJob (snd (claimVoucher sys0 r6 900 False)) job6 1000)
       = Inr limit_reached_response
   \<and> voucher_audit_log
        (db_state (snd (processJob (snd (claimVoucher sys0 r6 900 False)) job6 1000))) = []"
  by (simp add: eval_defs)

section \<open>C5: the idempotency cache short-circuits the claim\<close>

text \<open>
  C5. If the cache holds a result for the request's idempotency key, \<open>claimVoucher\<close> returns
  it unchanged; the store, the key/value store (so also the recorded attempts of the rate
  limiters), the breaker and the queue stay as they were, and only the hit counter of the
  cache grows. In particular, a claim that was not cached, succeeded and is repeated
  within the hour gets the same response, and the repetition leaves the state reached by
  the first call as it is.
\<close>

theorem C5_cached_result_returned_unchanged:
  "(live now (claim_result_keys (redis_state st) (idempotencyKey request)) = Some cached \<longrightarrow>
      claimVoucher st request now timedOut
        = (Inr cached, st\<lparr>cacheHits := cacheHits st + 1\<rparr>))
   \<and> (live t1 (claim_result_keys (redis_state st) (idempotencyKey request)) = None
        \<and> claimVoucher st request t1 timedOut1 = (Inr result, st1)
        \<and> status result = Some S_success \<and> t2 < t1 + 3600 * 1000 \<longrightarrow>
      claimVoucher st1 request t2 timedOut2
        = (Inr result, st1\<lparr>cacheHits := cacheHits st1 + 1\<rparr>))"
proof (intro conjI impI)
  assume "live now (claim_result_keys (redis_state st) (idempotencyKey request)) = Some cached"
  then show "claimVoucher st request now timedOut
               = (Inr cached, st\<lparr>cacheHits := cacheHits st + 1\<rparr>)"
    by (rule cache_hit)
next
  assume a: "live t1 (claim_result_keys (redis_state st) (idempotencyKey request)) = None
        \<and> claimVoucher st request t1 timedOut1 = (Inr result, st1)
        \<and> status result = Some S_success \<and> t2 < t1 + 3600 * 1000"
  then have "claim_result_keys (redis_state st1) (idempotencyKey request)
               = Some (result, t1 + 3600 * 1000)"
    using fresh_success_is_cached by blast
  with a have "live t2 (claim_result_keys (redis_state st1) (idempotencyKey request))
                 = Some result"
    by (simp add: live_def)
  then show "claimVoucher st1 request t2 timedOut2
               = (Inr result, st1\<lparr>cacheHits := cacheHits st1 + 1\<rparr>)"
    by (rule cache_hit)
qed

text \<open>The happy path at time 1000 and its repetition at time 2000: the same response,
  the user's count still 1, still one claim row.\<close>

theorem C5_cached_result_returned_unchanged_witness:
  "live 1000 (claim_result_keys (redis_state sys0) (idempotencyKey r1)) = None
   \<and> fst (claimVoucher sys0 r1 1000 False) = Inr (claimed_response user3)
   \<and> status (claimed_response user3) = Some S_success
   \<and> claimVoucher (snd (claimVoucher sys0 r1 1000 False)) r1 2000 False
       = (Inr (claimed_response user3),
          (snd (claimVoucher sys0 r1 1000 False))
            \<lparr>cacheHits := cacheHits (snd (claimVoucher sys0 r1 1000 False)) + 1\<rparr>)
   \<and> map vouchers_claimed
        (select_active_user
           (db_state (snd (claimVoucher (snd (claimVoucher sys0 r1 1000 False)) r1 2000 False)))
           3) = [1]
   \<and> length
        (voucher_claims
           (db_state (snd (claimVoucher (snd (claimVoucher sys0 r1 1000 False)) r1 2000 False))))
       = 1"
proof -
  have h1: "live 1000 (claim_result_keys (redis_state sys0) (idempotencyKey r1)) = None"
    by (simp add: live_def scenario_defs)
  have h2: "fst (claimVoucher sys0 r1 1000 False) = Inr (claimed_response user3)"
    by (simp add: eval_defs)
  have h3: "status (claimed_response user3) = Some S_success"
    by (simp add: claimed_response_def)
  have d: "map vouchers_claimed
             (select_active_user (db_state (snd (claimVoucher sys0 r1 1000 False))) 3) = [1]
           \<and> length (voucher_claims (db_state (snd (claimVoucher sys0 r1 1000 False)))) = 1"
    by (simp add: eval_defs)
  have h4: "claimVoucher sys0 r1 1000 False
              = (Inr (claimed_response user3), snd (claimVoucher sys0 r1 1000 False))"
    using h2 by (simp add: prod_eq_iff)
  have "claimVoucher (snd (claimVoucher sys0 r1 1000 False)) r1 2000 False
       = (Inr (claimed_response user3),
          (snd (claimVoucher sys0 r1 1000 False))
            \<lparr>cacheHits := cacheHits (snd (claimVoucher sys0 r1 1000 False)) + 1\<rparr>)"
    using C5_cached_result_returned_unchanged
            [where st = sys0 and request = r1 and ?t1.0 = 1000 and ?timedOut1.0 = False
               and result = "claimed_response user3"
               and ?st1.0 = "snd (claimVoucher sys0 r1 1000 False)"
               and ?t2.0 = 2000 and ?timedOut2.0 = False]
          h1 h3 h4
    by simp
  with h1 h2 h3 d show ?thesis by simp
qed

section \<open>C6: the decision of the sliding-window limiter\<close>

text \<open>
  C6, as the code has it. Let \<open>n\<close> be the number of attempts recorded in the window before
  the current one is added. The request is admitted iff \<open>n < maxRequests\<close>. When it is
  admitted, \<open>remainingRequests = maxRequests - n - 1\<close> and \<open>resetTime\<close> is
  \<open>now + windowSeconds * 1000\<close>. When it is rejected, \<open>remainingRequests = 0\<close> and \<open>resetTime\<close>
  is the oldest score of the set, the current attempt included, plus
  \<open>windowSeconds * 1000\<close>.
\<close>

theorem C6_rate_limit_decision:
  "(allowed (fst (checkRateLimit st uid maxRequests windowSeconds now))
      \<longleftrightarrow> int (length (attempts_in_window st uid windowSeconds now)) < maxRequests)
   \<and> (int (length (attempts_in_window st uid windowSeconds now)) < maxRequests \<longrightarrow>
        remainingRequests (fst (checkRateLimit st uid maxRequests windowSeconds now))
          = maxRequests - int (length (attempts_in_window st uid windowSeconds now)) - 1
        \<and> resetTime (fst (checkRateLimit st uid maxRequests windowSeconds now))
          = now + windowSeconds * 1000)
   \<and> (\<not> int (length (attempts_in_window st uid windowSeconds now)) < maxRequests \<longrightarrow>
        remainingRequests (fst (checkRateLimit st uid maxRequests windowSeconds now)) = 0
        \<and> resetTime (fst (checkRateLimit st uid maxRequests windowSeconds now))
          = Min (insert now (set (attempts_in_window st uid windowSeconds now)))
            + windowSeconds * 1000)"
  by (simp add: checkRateLimit_def Let_def zrange_lowest_zadd)

text \<open>User 7 has one attempt in the window, at 99000, and asks at 100000: with a ceiling
  of 10 the request is admitted, with a ceiling of 1 it is rejected.\<close>

theorem C6_rate_limit_decision_witness:
  "attempts_in_window sys_rate 7 60 100000 = [99000]
   \<and> allowed (fst (checkRateLimit sys_rate 7 10 60 100000))
   \<and> remainingRequests (fst (checkRateLimit sys_rate 7 10 60 100000)) = 8
   \<and> resetTime (fst (checkRateLimit sys_rate 7 10 60 100000)) = 160000
   \<and> \<not> allowed (fst (checkRateLimit sys_rate 7 1 60 100000))
   \<and> remainingRequests (fst (checkRateLimit sys_rate 7 1 60 100000)) = 0
   \<and> resetTime (fst (checkRateLimit sys_rate 7 1 60 100000)) = 159000"
proof -
  have a: "attempts_in_window sys_rate 7 60 100000 = [99000]"
    by (simp add: attempts_in_window_def sys_rate_def live_def zremrangebyscore_def
          scenario_defs)
  show ?thesis
    using C6_rate_limit_decision [of sys_rate 7 10 60 100000]
          C6_rate_limit_decision [of sys_rate 7 1 60 100000]
    by (simp add: a)
qed

text \<open>The claim as stated fails in both branches: the admitted request gets the reset
  time 160000 and not the oldest score 99000 plus the window, and the rejected request
  gets 0 remaining requests and not \<open>1 - 1 - 1\<close>.\<close>

theorem C6_reset_and_remaining_differ:
  "attempts_in_window sys_rate 7 60 100000 = [99000]
   \<and> zrange_lowest (zadd [99000] 100000) = Some 99000
   \<and> allowed (fst (checkRateLimit sys_rate 7 10 60 100000))
   \<and> resetTime (fst (checkRateLimit sys_rate 7 10 60 100000)) \<noteq> 99000 + 60 * 1000
   \<and> remainingRequests (fst (checkRateLimit sys_rate 7 1 60 100000))
        \<noteq> 1 - int (length (attempts_in_window sys_rate 7 60 100000)) - 1"
  by (simp add: front_defs live_def sys_rate_def scenario_defs Let_def)

section \<open>C7: the checks on the locked voucher row\<close>

text \<open>
  C7, as the code has it. With the user found and below the limit and the code found, the
  transaction checks three things on the locked row, in this order: the code is active,
  it has not expired (an expiry is absent or not before \<open>now\<close>), and
  \<open>usage_count < usage_limit\<close>. On the fast path a mismatch fails with \<open>INVALID_VOUCHER\<close>
  and the reason (inactive, expired, usage limit reached); on the worker path any of the
  three fails with the plain error \<open>Voucher code is not valid\<close>. In each case nothing
  changes. \<open>valid_from\<close> and \<open>allowed_user_ids\<close> are not read: when the three checks pass
  (and, on the fast path, the user has no successful claim of the code), the transaction
  either succeeds or fails on a check constraint of the store.
\<close>

theorem C7_transaction_rechecks_three_conditions:
  assumes "select_active_user d (userId request) = user # rest"
      and "vouchers_claimed user < voucher_limit user"
      and "select_voucher_code d (voucherCode request) = voucher # others"
      and "select_active_user d (userId job) = juser # jrest"
      and "vouchers_claimed juser < voucher_limit juser"
      and "select_voucher_code d (voucherCode job) = jvoucher # jothers"
  shows "(\<not> vc_is_active voucher \<longrightarrow>
           claim_transaction_immediate request now (d, kv)
             = (Inl (InvalidVoucherCode ''Voucher code is inactive''), (d, kv)))
       \<and> (vc_is_active voucher \<and> expired voucher now \<longrightarrow>
           claim_transaction_immediate request now (d, kv)
             = (Inl (InvalidVoucherCode ''Voucher code has expired''), (d, kv)))
       \<and> (vc_is_active voucher \<and> \<not> expired voucher now
            \<and> usage_count voucher \<ge> usage_limit voucher \<longrightarrow>
           claim_transaction_immediate request now (d, kv)
             = (Inl (InvalidVoucherCode ''Voucher code usage limit reached''), (d, kv)))
       \<and> (vc_is_active voucher \<and> \<not> expired voucher now
            \<and> usage_count voucher < usage_limit voucher
            \<and> select_success_claims d (userId request) (voucherCode request) = [] \<longrightarrow>
           fst (claim_transaction_immediate request now (d, kv)) = Inr (claimed_response user)
           \<or> fst (claim_transaction_immediate request now (d, kv))
                = Inl (DbError ''check_violation''))
       \<and> (\<not> vc_is_active jvoucher \<or> expired jvoucher now
            \<or> usage_count jvoucher \<ge> usage_limit jvoucher \<longrightarrow>
           transaction (processJob_callback job now) (d, kv)
             = (Inl (Error ''Voucher code is not valid''), (d, kv)))
       \<and> (vc_is_active jvoucher \<and> \<not> expired jvoucher now
            \<and> usage_count jvoucher < usage_limit jvoucher \<longrightarrow>
           fst (transaction (processJob_callback job now) (d, kv))
             = Inr (claimed_response juser)
           \<or> fst (transaction (processJob_callback job now) (d, kv))
                = Inl (DbError ''check_violation''))"
  using fast_step4 [OF assms(1,2,3), of now kv]
        fast_step4_pass [OF assms(1,2,3), of now kv]
        worker_step4 [OF assms(4,5,6), of now kv]
        worker_step4_pass [OF assms(4,5,6), of now kv]
  by blast

text \<open>User 3 on the fast path and the job of user 4 on the worker path, both for the
  restricted code: at time 1000 the three checks pass and both transactions succeed; at
  time 9000001 the code has expired and both fail, changing nothing.\<close>

theorem C7_transaction_rechecks_three_conditions_witness:
  "select_active_user db0 (userId r7) = [user3]
   \<and> vouchers_claimed user3 < voucher_limit user3
   \<and> select_voucher_code db0 (voucherCode r7) = [viponly24]
   \<and> select_active_user db0 (userId job7) = [user4]
   \<and> vouchers_claimed user4 < voucher_limit user4
   \<and> select_voucher_code db0 (voucherCode job7) = [viponly24]
   \<and> vc_is_active viponly24 \<and> \<not> expired viponly24 1000 \<and> expired viponly24 9000001
   \<and> usage_count viponly24 < usage_limit viponly24
   \<and> select_success_claims db0 (userId r7) (voucherCode r7) = []
   \<and> fst (claim_transaction_immediate r7 1000 (db0, kv0)) = Inr (claimed_response user3)
   \<and> fst (transaction (processJob_callback job7 1000) (db0, kv0)) = Inr (claimed_response user4)
   \<and> claim_transaction_immediate r7 9000001 (db0, kv0)
       = (Inl (InvalidVoucherCode ''Voucher code has expired''), (db0, kv0))
   \<and> transaction (processJob_callback job7 9000001) (db0, kv0)
       = (Inl (Error ''Voucher code is not valid''), (db0, kv0))"
proof -
  have h1: "select_active_user db0 (userId r7) = user3 # []"
    by (simp add: select_active_user_def scenario_defs)
  have h2: "vouchers_claimed user3 < voucher_limit user3" by (simp add: user3_def)
  have h3: "select_voucher_code db0 (voucherCode r7) = viponly24 # []"
    by (simp add: select_voucher_code_def scenario_defs)
  have h4: "select_active_user db0 (userId job7) = user4 # []"
    by (simp add: select_active_user_def claim_job_def scenario_defs)
  have h5: "vouchers_claimed user4 < voucher_limit user4" by (simp add: user4_def)
  have h6: "select_voucher_code db0 (voucherCode job7) = viponly24 # []"
    by (simp add: select_voucher_code_def claim_job_def scenario_defs)
  have h7: "vc_is_active viponly24" "\<not> expired viponly24 1000" "expired viponly24 9000001"
           "usage_count viponly24 < usage_limit viponly24"
    by (simp_all add: viponly24_def expired_def)
  have h8: "select_success_claims db0 (userId r7) (voucherCode r7) = []"
    by (simp add: select_success_claims_def db0_def)
  have e: "fst (claim_transaction_immediate r7 1000 (db0, kv0)) \<noteq> Inl (DbError ''check_violation'')"
          "fst (transaction (processJob_callback job7 1000) (db0, kv0))
             \<noteq> Inl (DbError ''check_violation'')"
    by (simp_all add: eval_defs)
  show ?thesis
    using C7_transaction_rechecks_three_conditions [OF h1 h2 h3 h4 h5 h6, of 1000 kv0]
          C7_transaction_rechecks_three_conditions [OF h1 h2 h3 h4 h5 h6, of 9000001 kv0]
          h1 h2 h3 h4 h5 h6 h7 h8 e
    by simp
qed

text \<open>The claim as stated fails: \<open>VIPONLY24\<close> is restricted to user 99, so by the
  eligibility rule it is open neither to user 3 nor to user 4 (the front path would turn
  both away), yet the transaction of the fast path lets user 3 claim it and the worker
  lets user 4 claim it: the transactions run on the row as it is when they lock it, and
  do not look at the restriction.\<close>

theorem C7_restricted_code_claimed:
  "isVoucherCodeValid viponly24 3 1000 = False
   \<and> isVoucherCodeValid viponly24 4 1000 = False
   \<and> select_voucher_code db0 ''VIPONLY24'' = [viponly24]
   \<and> fst (claim_transaction_immediate r7 1000 (db0, kv0))
       = Inr \<lparr> success = True, message = ''Voucher claimed successfully'',
               vouchersRemaining = Some 9, requestId = None, status = Some S_success \<rparr>
   \<and> fst (processJob sys0 job7 1000)
       = Inr \<lparr> success = True, message = ''Voucher claimed successfully'',
               vouchersRemaining = Some 9, requestId = None, status = Some S_success \<rparr>"
  by (simp add: eval_defs)

section \<open>C8: the claim and refund round trip\<close>

text \<open>
  C8. A refund is to restore the counts the claim changed. The refund by itself marks
  the claim refunded, subtracts 1 from the owner's count and from the code's count, each
  with a floor of 0, and appends a REFUND audit row (lemmas \<open>refund_marks_claim\<close> and
  \<open>refund_effects\<close>), and a second refund fails and changes nothing (lemma
  \<open>second_refund_fails\<close>). The round trip does not restore the code's count: after the
  happy path and the refund of its claim (id 1), the claim is refunded and the user's
  count is back at 0, but the code's \<open>usage_count\<close>, 0 before the claim and 2 after it,
  is 1.
\<close>

theorem C8_round_trip_leaves_usage_count_at_one:
  "fst (refundVoucher (snd (claimVoucher sys0 r1 1000 False)) 1 ''fraud'' None 3000) = Inr ()
   \<and> map c_status
         (select_claim
            (db_state (snd (refundVoucher (snd (claimVoucher sys0 r1 1000 False))
                              1 ''fraud'' None 3000))) 1)
     = [REFUNDED]
   \<and> map vouchers_claimed
         (select_active_user
            (db_state (snd (refundVoucher (snd (claimVoucher sys0 r1 1000 False))
                              1 ''fraud'' None 3000))) 3)
     = [0]
   \<and> fst (refundVoucher
              (snd (refundVoucher (snd (claimVoucher sys0 r1 1000 False)) 1 ''fraud'' None 3000))
              1 ''fraud'' None 4000)
     = Inl (Error ''Claim already refunded'')
   \<and> map usage_count (select_voucher_code db0 ''SUMMER2024'') = [0]
   \<and> map usage_count
         (select_voucher_code
            (db_state (snd (refundVoucher (snd (claimVoucher sys0 r1 1000 False))
                              1 ''fraud'' None 3000))) ''SUMMER2024'')
     = [1]"
  by (simp add: eval_defs)

section \<open>C9: the circuit breaker in the Half-Open state\<close>

text \<open>
  C9. In the Half-Open state, every failure of the wrapped action is to send the breaker
  back to Open and extend \<open>nextAttempt\<close>, whatever successes were recorded in that phase.
  The breaker of the service does not: five failures open it (at time 5, until 30005); the
  probe at 30005 succeeds, which makes it Half-Open and resets the failure counter; the
  next call, at 30006, fails, and the breaker is still Half-Open with \<open>nextAttempt\<close>
  unchanged, because \<open>onFailure\<close> only opens the breaker when the failure counter reaches
  the threshold (lemma \<open>onFailure_state\<close>).
\<close>

theorem C9_half_open_failure_after_success_stays_half_open:
  "execute_trace (dbCircuitBreaker_init 0)
     [(1, False), (2, False), (3, False), (4, False), (5, False), (30005, True)]
   = \<lparr> state = HALF_OPEN, failureCount = 0, successCount = 1, nextAttempt = 30005,
       options = \<lparr> failureThreshold = 5, successThreshold = 2, timeout = 5000,
                   resetTimeout = 30000 \<rparr> \<rparr>
   \<and> execute_trace (dbCircuitBreaker_init 0)
     [(1, False), (2, False), (3, False), (4, False), (5, False), (30005, True), (30006, False)]
   = \<lparr> state = HALF_OPEN, failureCount = 1, successCount = 1, nextAttempt = 30005,
       options = \<lparr> failureThreshold = 5, successThreshold = 2, timeout = 5000,
                   resetTimeout = 30000 \<rparr> \<rparr>"
  by (simp add: breaker_defs Let_def)

section \<open>C10: the worker caches the limit-reached result\<close>

text \<open>
  C10. When the worker finds the user at the limit, \<open>processJob\<close> returns the result
  \<open>limit_reached\<close> instead of failing and stores it under the job's idempotency key. As
  long as that entry is there and the hour has not passed, every request with the same
  key gets \<open>limit_reached\<close> from the cache, whatever the store holds by then.
\<close>

theorem C10_limit_reached_result_cached:
  assumes "select_active_user (db_state st) (userId job) = user # rest"
      and "vouchers_claimed user \<ge> voucher_limit user"
      and "claim_result_keys (redis_state st') (idempotencyKey job)
             = claim_result_keys (redis_state (snd (processJob st job now))) (idempotencyKey job)"
      and "idempotencyKey request = idempotencyKey job"
      and "later < now + 3600 * 1000"
  shows "processJob st job now
           = (Inr limit_reached_response,
              st\<lparr>redis_state := cacheClaimResult (redis_state st) (idempotencyKey job)
                                  limit_reached_response now\<rparr>)
       \<and> claimVoucher st' request later timedOut
           = (Inr limit_reached_response, st'\<lparr>cacheHits := cacheHits st' + 1\<rparr>)"
proof -
  have p: "processJob st job now
           = (Inr limit_reached_response,
              st\<lparr>redis_state := cacheClaimResult (redis_state st) (idempotencyKey job)
                                  limit_reached_response now\<rparr>)"
    using assms(1,2) by (simp add: processJob_def worker_limit)
  have "claim_result_keys (redis_state st') (idempotencyKey request)
          = Some (limit_reached_response, now + 3600 * 1000)"
    using assms(3,4) by (simp add: p cacheClaimResult_def)
  then have "getClaimResult st' (idempotencyKey request) later
          = (Some limit_reached_response, st'\<lparr>cacheHits := cacheHits st' + 1\<rparr>)"
    using assms(5) by (simp add: getClaimResult_def live_def)
  then have "claimVoucher st' request later timedOut
           = (Inr limit_reached_response, st'\<lparr>cacheHits := cacheHits st' + 1\<rparr>)"
    by (simp add: claimVoucher_def)
  with p show ?thesis by simp
qed

text \<open>User 6 is at the limit when the job runs at time 1000. The limit is then raised to
  20, so a fresh claim would pass the limit check; the request under the same key at time
  5000 still gets \<open>limit_reached\<close>.\<close>

theorem C10_limit_reached_result_cached_witness:
  "select_active_user (db_state sys0) (userId job6) = [user6]
   \<and> vouchers_claimed user6 \<ge> voucher_limit user6
   \<and> idempotencyKey r6 = idempotencyKey job6
   \<and> (5000 :: int) < 1000 + 3600 * 1000
   \<and> map voucher_limit (select_active_user (db_state sys_limit_raised) (userId r6)) = [20]
   \<and> map vouchers_claimed (select_active_user (db_state sys_limit_raised) (userId r6)) = [10]
   \<and> fst (processJob sys0 job6 1000) = Inr limit_reached_response
   \<and> claimVoucher sys_limit_raised r6 5000 False
       = (Inr limit_reached_response,
          sys_limit_raised\<lparr>cacheHits := cacheHits sys_limit_raised + 1\<rparr>)"
proof -
  have h1: "select_active_user (db_state sys0) (userId job6) = user6 # []"
    by (simp add: select_active_user_def claim_job_def scenario_defs)
  have h2: "vouchers_claimed user6 \<ge> voucher_limit user6" by (simp add: user6_def)
  have h3: "claim_result_keys (redis_state sys_limit_raised) (idempotencyKey job6)
             = claim_result_keys (redis_state (snd (processJob sys0 job6 1000)))
                 (idempotencyKey job6)"
    by (simp add: sys_limit_raised_def)
  have h4: "idempotencyKey r6 = idempotencyKey job6" by (simp add: job6_def claim_job_def)
  have h5: "(5000 :: int) < 1000 + 3600 * 1000" by simp
  have h6: "map voucher_limit (select_active_user (db_state sys_limit_raised) (userId r6)) = [20]"
           "map vouchers_claimed (select_active_user (db_state sys_limit_raised) (userId r6)) = [10]"
    by (simp_all add: sys_limit_raised_def select_active_user_def scenario_defs)
  from C10_limit_reached_result_cached [OF h1 h2 h3 h4 h5, of False] h1 h2 h4 h6
  show ?thesis by simp
qed

end
